theory Spec2Isabelle
  imports Main "HOL-Library.Char_ord" "HOL-Library.List_Lexorder"
begin

section \<open>JavaScript values, objects and thrown values\<close>

text \<open>
  The notes handled by \<^verbatim>\<open>src/sync.js\<close> are plain JavaScript objects whose
  properties hold primitive values. A primitive is \<^verbatim>\<open>undefined\<close>, \<^verbatim>\<open>null\<close>, a
  boolean, a number or a string. Numbers are modelled as integers (the only numbers
  the notes carry are \<^verbatim>\<open>last_modified\<close> timestamps); strings are lists of 8-bit
  characters, ordered by character code as JavaScript orders code units.
  An object is the ordered list of its own properties; an absent property reads as
  \<^verbatim>\<open>undefined\<close>, as in JavaScript, and writing a property replaces it in place
  or appends it.
\<close>

datatype jsval = JUndefined | JNull | JBool bool | JNum int | JStr string

type_synonym jsobj = "(string \<times> jsval) list"

definition get_prop :: "jsobj \<Rightarrow> string \<Rightarrow> jsval" where
  "get_prop r p = (case map_of r p of None \<Rightarrow> JUndefined | Some v \<Rightarrow> v)"

definition hasOwnProperty :: "jsobj \<Rightarrow> string \<Rightarrow> bool" where
  "hasOwnProperty r p = (map_of r p \<noteq> None)"

primrec set_prop :: "jsobj \<Rightarrow> string \<Rightarrow> jsval \<Rightarrow> jsobj" where
  "set_prop [] p v = [(p, v)]"
| "set_prop (q # qs) p v = (if fst q = p then (p, v) # qs else q # set_prop qs p v)"

fun truthy :: "jsval \<Rightarrow> bool" where
  "truthy JUndefined = False"
| "truthy JNull = False"
| "truthy (JBool b) = b"
| "truthy (JNum n) = (n \<noteq> 0)"
| "truthy (JStr s) = (s \<noteq> [])"

text \<open>
  Whatever a promise is rejected with, or a \<^verbatim>\<open>throw\<close> raises: an object or a
  primitive other than \<^verbatim>\<open>null\<close> and \<^verbatim>\<open>undefined\<close>. The handlers of
  \<^verbatim>\<open>sync.js\<close> look at three things of it: which of the two key errors it is an
  instance of, its \<^verbatim>\<open>message\<close>, and the \<^verbatim>\<open>status\<close> of its
  \<^verbatim>\<open>response\<close> (\<open>None\<close> when the value has no truthy \<^verbatim>\<open>response\<close>).
  The messages of the errors that the engine itself throws are those of Firefox.
\<close>

datatype err_class = ServerKeyNewer | ServerKeyOlder | OtherError

record thrown =
  err_class :: err_class
  message :: jsval
  response_status :: "jsval option"

definition Error :: "string \<Rightarrow> thrown" where
  "Error msg = \<lparr>err_class = OtherError, message = JStr msg, response_status = None\<rparr>"

definition TypeError :: "string \<Rightarrow> thrown" where
  "TypeError msg = \<lparr>err_class = OtherError, message = JStr msg, response_status = None\<rparr>"

definition ServerKeyNewerError :: thrown where
  "ServerKeyNewerError =
     \<lparr>err_class = ServerKeyNewer,
      message = JStr ''key used to encrypt the record appears to be newer than our key'',
      response_status = None\<rparr>"

definition ServerKeyOlderError :: thrown where
  "ServerKeyOlderError =
     \<lparr>err_class = ServerKeyOlder,
      message = JStr ''key used to encrypt the record appears to be older than our key'',
      response_status = None\<rparr>"

section \<open>The platform: JOSE, JSON and the number conversions\<close>

text \<open>
  \<^verbatim>\<open>Jose.WebCryptographer\<close>, \<^verbatim>\<open>JoseJWE.Encrypter\<close>, \<^verbatim>\<open>JoseJWE.Decrypter\<close>,
  \<^verbatim>\<open>crypto.subtle\<close> and \<^verbatim>\<open>JSON\<close> are not code of this repository. They are
  parameters of the model: a platform gives the outcome of each call, \<open>Inl\<close> being a
  rejection or a throw. \<^verbatim>\<open>JSON.parse\<close> yields a primitive or an object (arrays
  and nested objects are left out of the value model).
\<close>

datatype parsed = PPrim jsval | PObj jsobj

type_synonym crypto_key = "string \<times> string"

record platform =
  jose_encrypt :: "crypto_key \<Rightarrow> string \<Rightarrow> thrown + string"
  jose_decrypt :: "crypto_key \<Rightarrow> jsval \<Rightarrow> thrown + string"
  json_stringify :: "jsobj \<Rightarrow> string"
  json_parse :: "string \<Rightarrow> thrown + parsed"
  string_to_number :: "string \<Rightarrow> int option"
  number_to_string :: "int \<Rightarrow> string"

text \<open>The key of a credential: \<^verbatim>\<open>{ kty, k, kid }\<close>.\<close>

record jwk =
  kty :: string
  jwk_k :: string
  kid :: string

text \<open>
  \<^verbatim>\<open>shared_key\<close> imports \<^verbatim>\<open>{ kty: key.kty, k: key.k.replace(/=/, '') }\<close>: the
  regular expression has no \<^verbatim>\<open>g\<close> flag, so only the first \<^verbatim>\<open>=\<close> goes.
\<close>

definition shared_key :: "jwk \<Rightarrow> crypto_key" where
  "shared_key key = (kty key, remove1 (CHR ''='') (jwk_k key))"

definition encrypt :: "platform \<Rightarrow> jwk \<Rightarrow> jsobj \<Rightarrow> thrown + string" where
  "encrypt P key content = jose_encrypt P (shared_key key) (json_stringify P content)"

definition decrypt :: "platform \<Rightarrow> jwk \<Rightarrow> jsval \<Rightarrow> thrown + parsed" where
  "decrypt P key encrypted =
     (case jose_decrypt P (shared_key key) encrypted of
        Inl e \<Rightarrow> Inl e
      | Inr result \<Rightarrow> json_parse P result)"

text \<open>
  The operators of the language that the code applies to property values.
  \<^verbatim>\<open>a < b\<close> compares two strings by code units and everything else as numbers,
  where \<^verbatim>\<open>undefined\<close> and a non-numeric string are \<^verbatim>\<open>NaN\<close> (\<open>None\<close>) and
  compare false.
\<close>

fun to_number :: "platform \<Rightarrow> jsval \<Rightarrow> int option" where
  "to_number P JUndefined = None"
| "to_number P JNull = Some 0"
| "to_number P (JBool b) = Some (if b then 1 else 0)"
| "to_number P (JNum n) = Some n"
| "to_number P (JStr s) = string_to_number P s"

fun js_less :: "platform \<Rightarrow> jsval \<Rightarrow> jsval \<Rightarrow> bool" where
  "js_less P (JStr a) (JStr b) = (a < b)"
| "js_less P x y =
     (case (to_number P x, to_number P y) of
        (Some m, Some n) \<Rightarrow> m < n
      | _ \<Rightarrow> False)"

section \<open>The transformer: \<^verbatim>\<open>JWETransformer\<close>\<close>

text \<open>
  \<^verbatim>\<open>encode\<close> (sync.js 59-78). The whole record is encrypted, then the envelope
  is built; \<^verbatim>\<open>a && b\<close> is \<^verbatim>\<open>b\<close> when \<^verbatim>\<open>a\<close> is truthy and \<^verbatim>\<open>a\<close> otherwise.
\<close>

definition encode :: "platform \<Rightarrow> jwk \<Rightarrow> jsobj \<Rightarrow> thrown + jsobj" where
  "encode P key record =
     (case encrypt P key record of
        Inl e \<Rightarrow> Inl e
      | Inr ciphertext \<Rightarrow>
          let status =
                (if truthy (get_prop record ''_status'')
                 then (if get_prop record ''_status'' = JStr ''deleted''
                       then JStr ''updated'' else get_prop record ''_status'')
                 else get_prop record ''_status'');
              encryptedResult =
                [(''content'', JStr ciphertext),
                 (''id'', get_prop record ''id''),
                 (''_status'', status),
                 (''kid'', JStr (kid key))]
          in Inr (if hasOwnProperty record ''last_modified''
                  then set_prop encryptedResult ''last_modified''
                         (get_prop record ''last_modified'')
                  else encryptedResult))"

text \<open>
  \<^verbatim>\<open>decode\<close> (sync.js 80-109). After decryption the payload may be any JSON
  value. The class body is strict code: writing a property of \<^verbatim>\<open>null\<close> or of a
  primitive throws a \<^verbatim>\<open>TypeError\<close>, and so does reading a property of
  \<^verbatim>\<open>null\<close>; reading \<^verbatim>\<open>_status\<close> of another primitive gives \<^verbatim>\<open>undefined\<close>.
\<close>

definition attach_last_modified :: "jsobj \<Rightarrow> parsed \<Rightarrow> thrown + parsed" where
  "attach_last_modified record decoded =
     (if hasOwnProperty record ''last_modified''
      then (case decoded of
              PObj d \<Rightarrow> Inr (PObj (set_prop d ''last_modified'' (get_prop record ''last_modified'')))
            | PPrim v \<Rightarrow> Inl (TypeError ''cannot set property last_modified''))
      else Inr decoded)"

definition flag_deleted :: "parsed \<Rightarrow> thrown + parsed" where
  "flag_deleted decoded =
     (case decoded of
        PObj d \<Rightarrow>
          Inr (PObj (if get_prop d ''_status'' = JStr ''deleted''
                     then set_prop d ''deleted'' (JBool True) else d))
      | PPrim JNull \<Rightarrow> Inl (TypeError ''decoded is null'')
      | PPrim JUndefined \<Rightarrow> Inl (TypeError ''decoded is undefined'')
      | PPrim v \<Rightarrow> Inr (PPrim v))"

definition decode :: "platform \<Rightarrow> jwk \<Rightarrow> jsobj \<Rightarrow> thrown + parsed" where
  "decode P key record =
     (if \<not> truthy (get_prop record ''content'')
      then (if truthy (get_prop record ''deleted'')
            then Inr (PObj record)
            else Inl (Error ''No ciphertext: nothing to decrypt?''))
      else if get_prop record ''kid'' \<noteq> JStr (kid key)
      then (if js_less P (JStr (kid key)) (get_prop record ''kid'')
            then Inl ServerKeyNewerError
            else Inl ServerKeyOlderError)
      else (case decrypt P key (get_prop record ''content'') of
              Inl e \<Rightarrow> Inl e
            | Inr decoded \<Rightarrow>
                (case attach_last_modified record decoded of
                   Inl e \<Rightarrow> Inl e
                 | Inr decoded' \<Rightarrow> flag_deleted decoded')))"

section \<open>What the platform is expected to do\<close>

text \<open>
  \<^verbatim>\<open>JSON.stringify\<close> leaves out the properties whose value is \<^verbatim>\<open>undefined\<close>,
  and \<^verbatim>\<open>JSON.parse\<close> of the text gives the remaining ones back. A cipher round
  trip under one key returns the plaintext, and a compact JWE is never the empty string.
  These are properties of the libraries, assumed where a theorem says so.
\<close>

text \<open>
  An object of the model is well formed when no property occurs twice in it; the
  theorems that need it say so.
\<close>

definition json_own :: "jsobj \<Rightarrow> jsobj" where
  "json_own r = filter (\<lambda>q. snd q \<noteq> JUndefined) r"

definition json_round_trip :: "platform \<Rightarrow> jsobj \<Rightarrow> bool" where
  "json_round_trip P r = (json_parse P (json_stringify P r) = Inr (PObj (json_own r)))"

definition cipher_round_trip :: "platform \<Rightarrow> jwk \<Rightarrow> string \<Rightarrow> bool" where
  "cipher_round_trip P key t =
     (case jose_encrypt P (shared_key key) t of
        Inl e \<Rightarrow> False
      | Inr c \<Rightarrow> c \<noteq> [] \<and> jose_decrypt P (shared_key key) (JStr c) = Inr t)"

section \<open>A small platform and a note, for concrete runs\<close>

text \<open>
  The cipher of this platform prefixes the plaintext with a tag made of the key; its
  JSON codec knows the texts of the records below and the empty object.
\<close>

definition demo_key :: jwk where
  "demo_key = \<lparr>kty = ''oct'', jwk_k = ''c2VjcmV0LWtleQ=='', kid = ''20180101''\<rparr>"

definition demo_note :: jsobj where
  "demo_note =
     [(''id'', JStr ''n1''), (''content'', JStr ''<p>hello</p>''),
      (''_status'', JStr ''updated''), (''last_modified'', JNum 1514764800000)]"

definition demo_text :: string where
  "demo_text = ''{id:n1,content:<p>hello</p>,_status:updated,last_modified:1514764800000}''"

definition demo_tag :: "crypto_key \<Rightarrow> string" where
  "demo_tag ck = ''jwe.'' @ snd ck @ ''.''"

definition demo_platform :: platform where
  "demo_platform =
     \<lparr>jose_encrypt = (\<lambda>ck t. Inr (demo_tag ck @ t)),
      jose_decrypt = (\<lambda>ck c.
         case c of
           JStr s \<Rightarrow>
             (if take (length (demo_tag ck)) s = demo_tag ck
              then Inr (drop (length (demo_tag ck)) s)
              else Inl (Error ''decryption failed''))
         | _ \<Rightarrow> Inl (Error ''decryption failed'')),
      json_stringify = (\<lambda>r. if r = demo_note then demo_text else ''{}''),
      json_parse = (\<lambda>t. if t = demo_text then Inr (PObj demo_note)
                         else if t = ''{}'' then Inr (PObj [])
                         else Inl (Error ''JSON.parse: unexpected character'')),
      string_to_number = (\<lambda>s. None),
      number_to_string = (\<lambda>n. ''0'')\<rparr>"

definition demo_deleted_note :: jsobj where
  "demo_deleted_note =
     [(''id'', JStr ''n2''), (''content'', JStr ''<p>bye</p>''), (''_status'', JStr ''deleted'')]"

definition demo_tombstone :: jsobj where
  "demo_tombstone =
     [(''id'', JStr ''n2''), (''last_modified'', JNum 1514764800001), (''deleted'', JBool True)]"

definition demo_envelope :: "string \<Rightarrow> jsobj" where
  "demo_envelope record_kid =
     [(''content'', JStr (demo_tag (shared_key demo_key) @ demo_text)),
      (''id'', JStr ''n1''), (''_status'', JStr ''updated''), (''kid'', JStr record_kid)]"

definition demo_envelope_stamped :: jsobj where
  "demo_envelope_stamped =
     set_prop (demo_envelope ''20180101'') ''last_modified'' (JNum 1514764899999)"

section \<open>Conflicts and the services around the orchestrator\<close>

text \<open>
  A conflict of a sync round has the local record and the remote one, which is
  \<^verbatim>\<open>null\<close> (\<open>None\<close>) when the remote side has none. The result of a round lists
  the conflicts and the records published in it.
\<close>

record conflict =
  local :: jsobj
  remote :: "jsobj option"

record sync_result =
  conflicts :: "conflict list"
  published :: "jsobj list"

text \<open>A credential: \<^verbatim>\<open>{ key, access_token }\<close>.\<close>

record credential =
  cred_key :: jwk
  access_token :: string

text \<open>
  The messages sent with \<^verbatim>\<open>browser.runtime.sendMessage\<close>: the action, and the
  \<^verbatim>\<open>notes\<close> (\<open>None\<close> for \<^verbatim>\<open>null\<close> or \<^verbatim>\<open>undefined\<close>) and \<^verbatim>\<open>conflict\<close>
  fields where the action has them.
\<close>

datatype message =
    Reconnect
  | KintoLoaded "jsobj list option"
  | TextEditing
  | TextSaved
  | TextSynced "jsobj list option" bool

text \<open>
  Everything the orchestrator calls outside \<^verbatim>\<open>sync.js\<close> is a service: the
  credentials object, \<^verbatim>\<open>fxaRenewCredential\<close>, the Kinto collection and HTTP client,
  the browser runtime, \<^verbatim>\<open>sendMetric\<close>, \<^verbatim>\<open>sendMetrics\<close> and the console. The
  services are parameters of the model. Each gives, from the state \<open>'e\<close> of the
  environment, how the returned promise settles (\<open>Inl\<close> is a rejection) and the next
  state. The world holds that state, the list of the calls made so far, in order, and
  \<^verbatim>\<open>client.conflict\<close>, which all cycles share. A call takes effect when it is
  issued, also where the code does not wait for its promise
  (\<^verbatim>\<open>credentials.clear()\<close>, the upsert of the migrated note, most messages).
  \<open>meanwhile\<close> is what the other cycles do to \<^verbatim>\<open>client.conflict\<close> during a wait.
\<close>

datatype call =
    CredentialsGet
  | FxaRenewCredential credential
  | CredentialsSet credential
  | CredentialsClear
  | CollectionSync jwk string
  | CollectionResolve conflict jsobj
  | CollectionUpsert jsobj
  | CollectionList
  | ResetSyncStatus
  | DeleteCollection string
  | SendMessage message
  | SendMetric string
  | SendMetrics string
  | ConsoleError thrown

record 'e services =
  credentials_get :: "'e \<Rightarrow> (thrown + credential option) \<times> 'e"
  credentials_set :: "credential \<Rightarrow> 'e \<Rightarrow> (thrown + unit) \<times> 'e"
  credentials_clear :: "'e \<Rightarrow> (thrown + unit) \<times> 'e"
  fxaRenewCredential :: "credential \<Rightarrow> 'e \<Rightarrow> (thrown + credential) \<times> 'e"
  collection_sync :: "jwk \<Rightarrow> string \<Rightarrow> 'e \<Rightarrow> (thrown + sync_result) \<times> 'e"
  collection_resolve :: "conflict \<Rightarrow> jsobj \<Rightarrow> 'e \<Rightarrow> (thrown + unit) \<times> 'e"
  collection_upsert :: "jsobj \<Rightarrow> 'e \<Rightarrow> (thrown + unit) \<times> 'e"
  collection_list :: "'e \<Rightarrow> (thrown + jsobj list) \<times> 'e"
  collection_resetSyncStatus :: "'e \<Rightarrow> (thrown + unit) \<times> 'e"
  deleteCollection :: "string \<Rightarrow> 'e \<Rightarrow> (thrown + unit) \<times> 'e"
  sendMessage :: "message \<Rightarrow> 'e \<Rightarrow> (thrown + unit) \<times> 'e"
  getMessage :: "string \<Rightarrow> string"
  meanwhile :: "'e \<Rightarrow> bool \<Rightarrow> bool"

record 'e world =
  env :: 'e
  calls :: "call list"
  client_conflict :: bool

definition invoke :: "call \<Rightarrow> ('e \<Rightarrow> 'r \<times> 'e) \<Rightarrow> 'e world \<Rightarrow> 'r \<times> 'e world" where
  "invoke c f w = (case f (env w) of (r, e) \<Rightarrow> (r, w\<lparr>env := e, calls := calls w @ [c]\<rparr>))"

definition note_call :: "call \<Rightarrow> 'e world \<Rightarrow> 'e world" where
  "note_call c w = w\<lparr>calls := calls w @ [c]\<rparr>"

text \<open>
  \<^verbatim>\<open>client.conflict\<close> is a property of the client that every cycle shares, and a
  cycle does not run alone: the timer of \<^verbatim>\<open>saveToKinto\<close> can fire \<^verbatim>\<open>later\<close>
  again, and a load can start, while a cycle waits for a promise (sync.js 325, 359-360).
  Wherever the code waits for the promise of a call, the other cycles run, and
  \<open>meanwhile\<close> gives what they leave in \<^verbatim>\<open>client.conflict\<close>, from the state of the
  environment after the call and the value the flag had. Between two waits the code runs
  without interruption. \<open>await\<close> is a call whose promise the chain waits for;
  \<open>invoke\<close> alone is a call that is only issued.
\<close>

definition yield :: "'e services \<Rightarrow> 'e world \<Rightarrow> 'e world" where
  "yield S w = w\<lparr>client_conflict := meanwhile S (env w) (client_conflict w)\<rparr>"

definition await :: "'e services \<Rightarrow> call \<Rightarrow> ('e \<Rightarrow> 'r \<times> 'e) \<Rightarrow> 'e world \<Rightarrow> 'r \<times> 'e world" where
  "await S c f w = (case invoke c f w of (r, w') \<Rightarrow> (r, yield S w'))"

text \<open>
  \<^verbatim>\<open>a += b\<close> with a string on one side concatenates the two as strings;
  \<^verbatim>\<open>String.prototype.includes\<close>; and the index of the first published record with a
  truthy \<^verbatim>\<open>wasSingleNote\<close>, which is what \<^verbatim>\<open>published.find\<close> looks for.
\<close>

fun to_string :: "platform \<Rightarrow> jsval \<Rightarrow> string" where
  "to_string P JUndefined = ''undefined''"
| "to_string P JNull = ''null''"
| "to_string P (JBool b) = (if b then ''true'' else ''false'')"
| "to_string P (JNum n) = number_to_string P n"
| "to_string P (JStr s) = s"

fun str_includes :: "string \<Rightarrow> string \<Rightarrow> bool" where
  "str_includes [] pat = (pat = [])"
| "str_includes (c # cs) pat = (take (length pat) (c # cs) = pat \<or> str_includes cs pat)"

fun find_wasSingleNote :: "jsobj list \<Rightarrow> nat option" where
  "find_wasSingleNote [] = None"
| "find_wasSingleNote (note # notes) =
     (if truthy (get_prop note ''wasSingleNote'') then Some 0
      else map_option Suc (find_wasSingleNote notes))"

text \<open>\<^verbatim>\<open>reconnectSync\<close> (sync.js 265-270).\<close>

definition reconnectSync :: "'e services \<Rightarrow> 'e world \<Rightarrow> 'e world" where
  "reconnectSync S w =
     snd (invoke (SendMessage Reconnect) (sendMessage S Reconnect)
            (snd (invoke CredentialsClear (credentials_clear S) w)))"

text \<open>
  The callback that \<^verbatim>\<open>syncKinto\<close> maps over the conflicts (sync.js 187-223), on the
  published records of the round, which the migration case changes in place. It throws
  (\<open>Inl\<close>) when no published record is flagged \<^verbatim>\<open>wasSingleNote\<close>; otherwise it ends
  with \<^verbatim>\<open>collection.resolve(conflict, resolution)\<close>, here \<open>submit\<close>, whose
  promise it returns.
\<close>

definition submit ::
  "'e services \<Rightarrow> conflict \<Rightarrow> jsobj \<Rightarrow> jsobj list \<Rightarrow> 'e world
     \<Rightarrow> thrown + ((thrown + unit) \<times> jsobj list \<times> 'e world)" where
  "submit S c resolution pub w =
     (case invoke (CollectionResolve c resolution) (collection_resolve S c resolution) w of
        (outcome, w') \<Rightarrow> Inr (outcome, pub, w'))"

definition resolve_conflict ::
  "'e services \<Rightarrow> platform \<Rightarrow> jsobj list \<Rightarrow> 'e world \<Rightarrow> conflict
     \<Rightarrow> thrown + ((thrown + unit) \<times> jsobj list \<times> 'e world)" where
  "resolve_conflict S P pub w c =
     (case remote c of
        None \<Rightarrow>
          submit S c [(''id'', get_prop (local c) ''id''),
                      (''content'', get_prop (local c) ''content'')] pub w
      | Some rem \<Rightarrow>
          let mergeWarning = getMessage S ''mergeWarning'';
              totalOps = to_string P (get_prop rem ''content'') @ ''<p>'' @ mergeWarning @ ''</p>''
          in if get_prop rem ''id'' = JStr ''singleNote''
             then (case find_wasSingleNote pub of
                     None \<Rightarrow> Inl (TypeError ''wasSingleNote is undefined'')
                   | Some i \<Rightarrow>
                       let totalOps' = totalOps @ to_string P (get_prop (pub ! i) ''content'');
                           wasSingleNote = set_prop (pub ! i) ''content'' (JStr totalOps');
                           w1 = snd (invoke (CollectionUpsert wasSingleNote)
                                       (collection_upsert S wasSingleNote) w);
                           w2 = note_call (SendMetric ''migrate-single-note'') w1;
                           w3 = note_call (SendMetrics ''handle-conflict'')
                                  (w2\<lparr>client_conflict := True\<rparr>)
                       in submit S c (local c) (pub[i := wasSingleNote]) w3)
             else let totalOps' = totalOps @ to_string P (get_prop (local c) ''content'');
                      w1 = note_call (SendMetrics ''handle-conflict'')
                             (w\<lparr>client_conflict := True\<rparr>)
                  in submit S c [(''id'', get_prop rem ''id''), (''content'', JStr totalOps')]
                       pub w1)"

text \<open>
  \<^verbatim>\<open>Promise.all(syncResult.conflicts.map(...))\<close>: the callbacks run in order, with
  no wait between them; a throw ends the mapping at once; otherwise the chain waits for
  the promises together, and the result is rejected with the first rejection among
  them, taken in the order of the list.
\<close>

fun resolve_all ::
  "'e services \<Rightarrow> platform \<Rightarrow> conflict list \<Rightarrow> thrown option \<Rightarrow> jsobj list \<Rightarrow> 'e world
     \<Rightarrow> (thrown + unit) \<times> 'e world" where
  "resolve_all S P [] rejected pub w =
     ((case rejected of None \<Rightarrow> Inr () | Some e \<Rightarrow> Inl e), yield S w)"
| "resolve_all S P (c # cs) rejected pub w =
     (case resolve_conflict S P pub w c of
        Inl e \<Rightarrow> (Inl e, w)
      | Inr (outcome, pub', w') \<Rightarrow>
          resolve_all S P cs
            (case rejected of
               Some e \<Rightarrow> Some e
             | None \<Rightarrow> (case outcome of Inl e \<Rightarrow> Some e | Inr u \<Rightarrow> None))
            pub' w')"

text \<open>
  The variables \<^verbatim>\<open>credential\<close> and \<^verbatim>\<open>collection\<close> of \<^verbatim>\<open>syncKinto\<close>, as they
  stand when the chain fails: the catch handler reads them. \<open>fetch_and_sync\<close> is the
  first \<^verbatim>\<open>then\<close> of the chain (sync.js 159-182); its result is \<open>Inr None\<close> when no
  credential is stored.
\<close>

record locals =
  credential :: "credential option"
  collection :: bool

definition fetch_and_sync ::
  "'e services \<Rightarrow> 'e world \<Rightarrow> (thrown + sync_result option) \<times> locals \<times> 'e world" where
  "fetch_and_sync S w =
     (case await S CredentialsGet (credentials_get S) w of
        (Inl err, w1) \<Rightarrow> (Inl err, \<lparr>credential = None, collection = False\<rparr>, w1)
      | (Inr None, w1) \<Rightarrow> (Inr None, \<lparr>credential = None, collection = False\<rparr>, w1)
      | (Inr (Some received), w1) \<Rightarrow>
          (case await S (FxaRenewCredential received) (fxaRenewCredential S received) w1 of
             (Inl err, w2) \<Rightarrow> (Inl err, \<lparr>credential = Some received, collection = False\<rparr>, w2)
           | (Inr renewedCred, w2) \<Rightarrow>
               (case await S (CredentialsSet renewedCred) (credentials_set S renewedCred) w2 of
                  (Inl err, w3) \<Rightarrow>
                    (Inl err, \<lparr>credential = Some renewedCred, collection = False\<rparr>, w3)
                | (Inr u, w3) \<Rightarrow>
                    (case await S (CollectionSync (cred_key renewedCred) (access_token renewedCred))
                            (collection_sync S (cred_key renewedCred) (access_token renewedCred)) w3 of
                       (Inl err, w4) \<Rightarrow>
                         (Inl err, \<lparr>credential = Some renewedCred, collection = True\<rparr>, w4)
                     | (Inr syncResult, w4) \<Rightarrow>
                         (Inr (Some syncResult),
                          \<lparr>credential = Some renewedCred, collection = True\<rparr>, w4)))))"

text \<open>
  \<open>attempt\<close> is the chain up to the catch (sync.js 159-228): \<open>again\<close> stands for
  the call of \<^verbatim>\<open>syncKinto\<close> that follows the resolution of conflicts.
  \<open>catch_handler\<close> is the catch (sync.js 229-262): it settles the promise or, after
  \<^verbatim>\<open>resetSyncStatus\<close>, asks for another cycle. Reading \<^verbatim>\<open>error.message.includes\<close>
  of a value without a string message throws, and so do \<^verbatim>\<open>credential.access_token\<close>
  and \<^verbatim>\<open>collection.resetSyncStatus()\<close> on variables not yet assigned.
\<close>

datatype 'e step = Settled "thrown + unit" "'e world" | Retry "'e world"

definition attempt ::
  "('e world \<Rightarrow> ((thrown + unit) \<times> 'e world) option) \<Rightarrow> 'e services \<Rightarrow> platform \<Rightarrow> 'e world
     \<Rightarrow> (locals \<times> (thrown + unit) \<times> 'e world) option" where
  "attempt again S P w =
     (case fetch_and_sync S w of
        (Inl err, l, w1) \<Rightarrow> Some (l, Inl err, w1)
      | (Inr None, l, w1) \<Rightarrow> Some (l, Inr (), w1)
      | (Inr (Some syncResult), l, w1) \<Rightarrow>
          if conflicts syncResult \<noteq> []
          then (case resolve_all S P (conflicts syncResult) None (published syncResult) w1 of
                  (Inl err, w2) \<Rightarrow> Some (l, Inl err, w2)
                | (Inr u, w2) \<Rightarrow> map_option (Pair l) (again w2))
          else Some (l, Inr (), w1))"

definition reset_and_retry :: "'e services \<Rightarrow> locals \<Rightarrow> 'e world \<Rightarrow> 'e step" where
  "reset_and_retry S l w =
     (if collection l
      then (case await S ResetSyncStatus (collection_resetSyncStatus S) w of
              (Inl e, w1) \<Rightarrow> Settled (Inl e) w1
            | (Inr u, w1) \<Rightarrow> Retry w1)
      else Settled (Inl (TypeError ''collection is undefined'')) w)"

definition catch_handler :: "'e services \<Rightarrow> locals \<Rightarrow> thrown \<Rightarrow> 'e world \<Rightarrow> 'e step" where
  "catch_handler S l error w =
     (if response_status error = Some (JNum 401)
      then Settled (Inr ()) (reconnectSync S w)
      else if err_class error = ServerKeyNewer
      then Settled (Inr ()) (reconnectSync S (note_call (ConsoleError error) w))
      else if err_class error = ServerKeyOlder
      then (let w1 = note_call (ConsoleError error) w
            in case credential l of
                 None \<Rightarrow> Settled (Inl (TypeError ''credential is undefined'')) w1
               | Some cred \<Rightarrow>
                   (case await S (DeleteCollection (access_token cred))
                           (deleteCollection S (access_token cred)) w1 of
                      (Inl e, w2) \<Rightarrow> Settled (Inl e) w2
                    | (Inr u, w2) \<Rightarrow> reset_and_retry S l w2))
      else (case message error of
              JStr m \<Rightarrow>
                if str_includes m ''flushed'' then reset_and_retry S l w
                else if str_includes m ''syncResult is undefined'' then Settled (Inr ()) w
                else if m = ''Failed to renew token'' then Settled (Inr ()) (reconnectSync S w)
                else Settled (Inl error) (reconnectSync S (note_call (ConsoleError error) w))
            | _ \<Rightarrow> Settled (Inl (TypeError ''error.message is undefined'')) w))"

text \<open>
  \<^verbatim>\<open>syncKinto\<close> (sync.js 156-263). The source calls itself with no bound; the model
  counts the nested calls down from the fuel, and \<open>None\<close> says that the promise has not
  settled within it.
\<close>

primrec syncKinto ::
  "nat \<Rightarrow> 'e services \<Rightarrow> platform \<Rightarrow> 'e world \<Rightarrow> ((thrown + unit) \<times> 'e world) option" where
  "syncKinto 0 S P w = None"
| "syncKinto (Suc n) S P w =
     (case attempt (syncKinto n S P) S P w of
        None \<Rightarrow> None
      | Some (l, Inr u, w1) \<Rightarrow> Some (Inr u, w1)
      | Some (l, Inl error, w1) \<Rightarrow>
          (case catch_handler S l error w1 of
             Settled r w2 \<Rightarrow> Some (r, w2)
           | Retry w2 \<Rightarrow> syncKinto n S P w2))"

text \<open>\<^verbatim>\<open>retrieveNote\<close> and \<^verbatim>\<open>loadFromKinto\<close> (sync.js 272-310).\<close>

definition retrieveNote :: "'e services \<Rightarrow> 'e world \<Rightarrow> (thrown + jsobj list) \<times> 'e world" where
  "retrieveNote S w = await S CollectionList (collection_list S) w"

definition loadFromKinto ::
  "nat \<Rightarrow> 'e services \<Rightarrow> platform \<Rightarrow> 'e world \<Rightarrow> 'e world option" where
  "loadFromKinto n S P w =
     (case syncKinto n S P w of
        None \<Rightarrow> None
      | Some (outcome, w1) \<Rightarrow>
          Some (case retrieveNote S w1 of
                  (Inr data, w2) \<Rightarrow>
                    snd (invoke (SendMessage (KintoLoaded (Some data)))
                           (sendMessage S (KintoLoaded (Some data))) w2)
                | (Inl e, w2) \<Rightarrow>
                    snd (invoke (SendMessage (KintoLoaded None))
                           (sendMessage S (KintoLoaded None)) w2)))"

text \<open>
  The end of a save cycle (sync.js 336-356): the list is retrieved whether the chain
  before resolved or not, and \<^verbatim>\<open>text-synced\<close> sent with it; when the retrieval or
  that message is rejected, the catch sends \<^verbatim>\<open>text-synced\<close> with the \<^verbatim>\<open>data\<close> of
  the rejection, which a thrown value of this model does not have.
\<close>

definition report_synced :: "'e services \<Rightarrow> 'e world \<Rightarrow> 'e world" where
  "report_synced S w =
     (case retrieveNote S w of
        (Inr data, w1) \<Rightarrow>
          (case await S (SendMessage (TextSynced (Some data) (client_conflict w1)))
                  (sendMessage S (TextSynced (Some data) (client_conflict w1))) w1 of
             (Inr u, w2) \<Rightarrow> w2
           | (Inl e, w2) \<Rightarrow>
               snd (invoke (SendMessage (TextSynced None (client_conflict w2)))
                      (sendMessage S (TextSynced None (client_conflict w2))) w2))
      | (Inl e, w1) \<Rightarrow>
          snd (invoke (SendMessage (TextSynced None (client_conflict w1)))
                 (sendMessage S (TextSynced None (client_conflict w1))) w1))"

text \<open>
  The function \<^verbatim>\<open>later\<close> that \<^verbatim>\<open>saveToKinto\<close> hands to its timer (sync.js 324-357):
  the local upsert (\<open>save_locally\<close>), then, in the callback that runs only when the
  upsert resolved (\<open>text_saved\<close>), the \<^verbatim>\<open>text-saved\<close> message and the reset of
  \<^verbatim>\<open>client.conflict\<close>, then the sync; in both cases the list is retrieved and
  \<^verbatim>\<open>text-synced\<close> sent, with \<^verbatim>\<open>client.conflict\<close> as it is then. The timer is
  not modelled: what it lets happen, another cycle running while this one waits, is in
  \<open>meanwhile\<close>.
\<close>

definition save_locally :: "'e services \<Rightarrow> jsobj \<Rightarrow> 'e world \<Rightarrow> (thrown + unit) \<times> 'e world" where
  "save_locally S note w = await S (CollectionUpsert note) (collection_upsert S note) w"

definition text_saved :: "'e services \<Rightarrow> 'e world \<Rightarrow> 'e world" where
  "text_saved S w =
     (snd (invoke (SendMessage TextSaved) (sendMessage S TextSaved) w))\<lparr>client_conflict := False\<rparr>"

definition later ::
  "nat \<Rightarrow> 'e services \<Rightarrow> platform \<Rightarrow> jsobj \<Rightarrow> 'e world \<Rightarrow> 'e world option" where
  "later n S P note w =
     (case save_locally S note w of
        (Inl e, w1) \<Rightarrow> Some (report_synced S w1)
      | (Inr res, w1) \<Rightarrow>
          (case syncKinto n S P (text_saved S w1) of
             None \<Rightarrow> None
           | Some (outcome, w2) \<Rightarrow> Some (report_synced S w2)))"

section \<open>Scripted services, for concrete runs\<close>

text \<open>
  The environment of these services holds the stored credential, the outcomes of the
  coming \<^verbatim>\<open>collection.sync\<close> calls (a clean result once they are used up), whether the
  local upsert fails, and the local notes. No other cycle runs meanwhile.
\<close>

record script =
  stored_credential :: "credential option"
  sync_outcomes :: "(thrown + sync_result) list"
  upsert_fails :: bool
  local_notes :: "jsobj list"

definition demo_services :: "script services" where
  "demo_services =
     \<lparr>credentials_get = (\<lambda>e. (Inr (stored_credential e), e)),
      credentials_set = (\<lambda>c e. (Inr (), e\<lparr>stored_credential := Some c\<rparr>)),
      credentials_clear = (\<lambda>e. (Inr (), e\<lparr>stored_credential := None\<rparr>)),
      fxaRenewCredential = (\<lambda>c e. (Inr c, e)),
      collection_sync = (\<lambda>k t e.
         case sync_outcomes e of
           [] \<Rightarrow> (Inr \<lparr>conflicts = [], published = []\<rparr>, e)
         | r # rs \<Rightarrow> (r, e\<lparr>sync_outcomes := rs\<rparr>)),
      collection_resolve = (\<lambda>c r e. (Inr (), e)),
      collection_upsert = (\<lambda>n e.
         if upsert_fails e then (Inl (Error ''upsert failed''), e)
         else (Inr (), e\<lparr>local_notes := n # local_notes e\<rparr>)),
      collection_list = (\<lambda>e. (Inr (local_notes e), e)),
      collection_resetSyncStatus = (\<lambda>e. (Inr (), e)),
      deleteCollection = (\<lambda>t e. (Inr (), e)),
      sendMessage = (\<lambda>m e. (Inr (), e)),
      getMessage = (\<lambda>name. ''MERGED''),
      meanwhile = (\<lambda>e flag. flag)\<rparr>"

definition demo_credential :: credential where
  "demo_credential = \<lparr>cred_key = demo_key, access_token = ''token''\<rparr>"

definition demo_world :: "(thrown + sync_result) list \<Rightarrow> bool \<Rightarrow> bool \<Rightarrow> script world" where
  "demo_world outcomes fails flag =
     \<lparr>env = \<lparr>stored_credential = Some demo_credential, sync_outcomes = outcomes,
              upsert_fails = fails, local_notes = [demo_note]\<rparr>,
      calls = [], client_conflict = flag\<rparr>"

definition demo_both :: conflict where
  "demo_both =
     \<lparr>local = [(''id'', JStr ''n1''), (''content'', JStr ''mine'')],
      remote = Some [(''id'', JStr ''n1''), (''content'', JStr ''theirs'')]\<rparr>"

definition demo_sentinel :: conflict where
  "demo_sentinel =
     \<lparr>local = [(''id'', JStr ''singleNote''), (''_status'', JStr ''deleted'')],
      remote = Some [(''id'', JStr ''singleNote''), (''content'', JStr ''old'')]\<rparr>"

definition demo_published :: "jsobj list" where
  "demo_published =
     [[(''id'', JStr ''n0''), (''content'', JStr ''other'')],
      [(''id'', JStr ''n1''), (''content'', JStr ''new''), (''wasSingleNote'', JBool True)]]"

text \<open>The published records as a resolution leaves them.\<close>

definition published_after ::
  "thrown + ((thrown + unit) \<times> jsobj list \<times> 'e world) \<Rightarrow> jsobj list option" where
  "published_after r = (case r of Inl e \<Rightarrow> None | Inr (outcome, pub, w) \<Rightarrow> Some pub)"

text \<open>Failures and rounds for the scripted services.\<close>

definition unauthorized :: thrown where
  "unauthorized =
     \<lparr>err_class = OtherError, message = JStr ''HTTP 401 Unauthorized'',
      response_status = Some (JNum 401)\<rparr>"

definition demo_merge_round :: "thrown + sync_result" where
  "demo_merge_round = Inr \<lparr>conflicts = [demo_both], published = []\<rparr>"

definition demo_saved_env :: "(thrown + sync_result) list \<Rightarrow> script" where
  "demo_saved_env outcomes =
     \<lparr>stored_credential = Some demo_credential, sync_outcomes = outcomes,
      upsert_fails = False, local_notes = [demo_note, demo_note]\<rparr>"

text \<open>
  Three variations: a store that reports the same conflict in every round, a server that
  answers 401 to the deletion of the collection, and another cycle that sets
  \<^verbatim>\<open>client.conflict\<close> while this one waits.
\<close>

definition conflict_forever :: "script services" where
  "conflict_forever =
     demo_services
       \<lparr>collection_sync := (\<lambda>k t e. (Inr \<lparr>conflicts = [demo_both], published = []\<rparr>, e))\<rparr>"

definition delete_unauthorized :: "script services" where
  "delete_unauthorized = demo_services\<lparr>deleteCollection := (\<lambda>t e. (Inl unauthorized, e))\<rparr>"

definition other_cycle_merges :: "script services" where
  "other_cycle_merges = demo_services\<lparr>meanwhile := (\<lambda>e flag. True)\<rparr>"

section \<open>What is observed of a run\<close>

text \<open>
  The \<^verbatim>\<open>kinto-loaded\<close> payloads and the \<^verbatim>\<open>conflict\<close> fields of the
  \<^verbatim>\<open>text-synced\<close> messages among some calls, and the calls made between two worlds.
  A cycle is alone when the other cycles leave \<^verbatim>\<open>client.conflict\<close> as it is.
  A world \<open>w'\<close> follows \<open>w\<close> quietly when it extends the calls of \<open>w\<close> with none of
  these two messages; when \<^verbatim>\<open>sendMetrics('handle-conflict')\<close> is among the new calls
  only with the resolution of a conflict that has a remote record; and when, for a cycle
  that is alone, its conflict flag is set exactly when it was set in \<open>w\<close> or that
  metric was sent since.
\<close>

definition loaded_notes :: "call list \<Rightarrow> jsobj list option list" where
  "loaded_notes cs =
     concat (map (\<lambda>c. case c of SendMessage (KintoLoaded x) \<Rightarrow> [x] | _ \<Rightarrow> []) cs)"

definition synced_flags :: "call list \<Rightarrow> bool list" where
  "synced_flags cs =
     concat (map (\<lambda>c. case c of SendMessage (TextSynced x b) \<Rightarrow> [b] | _ \<Rightarrow> []) cs)"

definition new_calls :: "'e world \<Rightarrow> 'e world \<Rightarrow> call list" where
  "new_calls w w' = drop (length (calls w)) (calls w')"

definition resolves_remote :: "call \<Rightarrow> bool" where
  "resolves_remote c =
     (case c of CollectionResolve cf res \<Rightarrow> remote cf \<noteq> None | _ \<Rightarrow> False)"

definition alone :: "'e services \<Rightarrow> bool" where
  "alone S = (\<forall>e flag. meanwhile S e flag = flag)"

definition silent :: "call \<Rightarrow> bool" where
  "silent c =
     (case c of
        SendMessage (KintoLoaded x) \<Rightarrow> False
      | SendMessage (TextSynced x b) \<Rightarrow> False
      | SendMetrics name \<Rightarrow> False
      | _ \<Rightarrow> True)"

definition quiet :: "'e services \<Rightarrow> 'e world \<Rightarrow> 'e world \<Rightarrow> bool" where
  "quiet S w w' =
     (\<exists>new. calls w' = calls w @ new
        \<and> loaded_notes new = [] \<and> synced_flags new = []
        \<and> (SendMetrics ''handle-conflict'' \<in> set new \<longrightarrow> list_ex resolves_remote new)
        \<and> (alone S \<longrightarrow>
             client_conflict w' = (client_conflict w \<or> SendMetrics ''handle-conflict'' \<in> set new)))"

section \<open>Properties of objects\<close>

lemma map_of_set_prop: "map_of (set_prop r p v) = (map_of r)(p \<mapsto> v)"
  by (induction r) (auto simp: fun_eq_iff)

lemma get_prop_set_prop: "get_prop (set_prop r p v) q = (if q = p then v else get_prop r q)"
  by (simp add: get_prop_def map_of_set_prop)

lemma hasOwnProperty_set_prop: "hasOwnProperty (set_prop r p v) q = (q = p \<or> hasOwnProperty r q)"
  by (simp add: hasOwnProperty_def map_of_set_prop)

lemma get_prop_json_own: "distinct (map fst r) \<Longrightarrow> get_prop (json_own r) p = get_prop r p"
proof (induction r)
  case Nil
  then show ?case by (simp add: json_own_def)
next
  case (Cons q r)
  then have IH: "get_prop (json_own r) p = get_prop r p" by simp
  show ?case
  proof (cases "fst q = p")
    case False
    with IH show ?thesis by (cases q) (simp add: json_own_def get_prop_def)
  next
    case True
    from Cons.prems True have "p \<notin> fst ` set r" by auto
    then have "map_of r p = None" by (simp add: map_of_eq_None_iff)
    then have "get_prop r p = JUndefined" by (simp add: get_prop_def)
    with IH True show ?thesis by (cases q) (auto simp add: json_own_def get_prop_def)
  qed
qed

section \<open>Properties of the transformer\<close>

lemma demo_tag_nonempty: "demo_tag ck \<noteq> []"
  by (simp add: demo_tag_def)

lemma demo_cipher_round_trip: "cipher_round_trip demo_platform key t"
  by (simp add: cipher_round_trip_def demo_platform_def demo_tag_nonempty)

lemma demo_json_round_trip: "json_round_trip demo_platform demo_note"
  by (simp add: json_round_trip_def demo_platform_def json_own_def demo_note_def)

text \<open>
  Claim C1. A note whose \<^verbatim>\<open>_status\<close> is not \<^verbatim>\<open>deleted\<close> is encoded and the
  result decoded under the same key, on a platform whose cipher and JSON codec round-trip
  the note: encoding succeeds, decoding yields an object with the note's \<^verbatim>\<open>id\<close> and
  \<^verbatim>\<open>content\<close>, and a \<^verbatim>\<open>last_modified\<close> the note has is on the decoded object
  with the same value. The decoded object also keeps \<^verbatim>\<open>_status\<close> and is not newly
  flagged \<^verbatim>\<open>deleted\<close>.
\<close>

theorem encode_decode_round_trip:
  assumes dist: "distinct (map fst n)"
    and live: "get_prop n ''_status'' \<noteq> JStr ''deleted''"
    and ciph: "cipher_round_trip P key (json_stringify P n)"
    and json: "json_round_trip P n"
  shows "\<exists>w d. encode P key n = Inr w \<and> decode P key w = Inr (PObj d)
           \<and> get_prop d ''id'' = get_prop n ''id''
           \<and> get_prop d ''content'' = get_prop n ''content''
           \<and> (hasOwnProperty n ''last_modified'' \<longrightarrow>
                hasOwnProperty d ''last_modified''
                \<and> get_prop d ''last_modified'' = get_prop n ''last_modified'')
           \<and> get_prop d ''_status'' = get_prop n ''_status''
           \<and> get_prop d ''deleted'' = get_prop n ''deleted''"
proof -
  from ciph obtain c where
    enc: "jose_encrypt P (shared_key key) (json_stringify P n) = Inr c"
    and c: "c \<noteq> []"
    and dec: "jose_decrypt P (shared_key key) (JStr c) = Inr (json_stringify P n)"
    by (auto simp: cipher_round_trip_def split: sum.splits)
  define st where "st = (if truthy (get_prop n ''_status'')
                 then (if get_prop n ''_status'' = JStr ''deleted''
                       then JStr ''updated'' else get_prop n ''_status'')
                 else get_prop n ''_status'')"
  define env where "env = [(''content'', JStr c), (''id'', get_prop n ''id''),
                 (''_status'', st), (''kid'', JStr (kid key))]"
  define w where "w = (if hasOwnProperty n ''last_modified''
                  then set_prop env ''last_modified'' (get_prop n ''last_modified'')
                  else env)"
  define d where "d = (if hasOwnProperty n ''last_modified''
                  then set_prop (json_own n) ''last_modified'' (get_prop n ''last_modified'')
                  else json_own n)"
  have E: "encode P key n = Inr w"
    by (simp add: encode_def encrypt_def enc w_def env_def st_def Let_def)
  have wc: "get_prop w ''content'' = JStr c"
    by (simp add: w_def env_def get_prop_set_prop) (simp add: get_prop_def)
  have wk: "get_prop w ''kid'' = JStr (kid key)"
    by (simp add: w_def env_def get_prop_set_prop) (simp add: get_prop_def)
  have wl: "hasOwnProperty w ''last_modified'' = hasOwnProperty n ''last_modified''"
    by (simp add: w_def env_def hasOwnProperty_set_prop) (simp add: hasOwnProperty_def)
  have wlv: "hasOwnProperty n ''last_modified'' \<Longrightarrow>
               get_prop w ''last_modified'' = get_prop n ''last_modified''"
    by (simp add: w_def get_prop_set_prop)
  have dcr: "decrypt P key (JStr c) = Inr (PObj (json_own n))"
    using json by (simp add: decrypt_def dec json_round_trip_def)
  have att: "attach_last_modified w (PObj (json_own n)) = Inr (PObj d)"
    using wlv by (auto simp add: attach_last_modified_def wl d_def)
  have ds: "get_prop d ''_status'' = get_prop n ''_status''"
    by (simp add: d_def get_prop_set_prop get_prop_json_own [OF dist])
  have fl: "flag_deleted (PObj d) = Inr (PObj d)"
    using live by (simp add: flag_deleted_def ds)
  have D: "decode P key w = Inr (PObj d)"
    using c by (simp add: decode_def wc wk dcr att fl)
  have "get_prop d ''id'' = get_prop n ''id''"
    and "get_prop d ''content'' = get_prop n ''content''"
    and "get_prop d ''deleted'' = get_prop n ''deleted''"
    by (simp_all add: d_def get_prop_set_prop get_prop_json_own [OF dist])
  moreover have "hasOwnProperty n ''last_modified'' \<longrightarrow>
                hasOwnProperty d ''last_modified''
                \<and> get_prop d ''last_modified'' = get_prop n ''last_modified''"
    by (simp add: d_def get_prop_set_prop hasOwnProperty_set_prop)
  ultimately show ?thesis using E D ds by blast
qed

theorem encode_decode_round_trip_witness:
  "distinct (map fst demo_note) \<and> get_prop demo_note ''_status'' \<noteq> JStr ''deleted''
   \<and> hasOwnProperty demo_note ''last_modified''
   \<and> (\<exists>w d. encode demo_platform demo_key demo_note = Inr w
          \<and> decode demo_platform demo_key w = Inr (PObj d)
          \<and> get_prop d ''id'' = JStr ''n1''
          \<and> get_prop d ''content'' = JStr ''<p>hello</p>''
          \<and> get_prop d ''last_modified'' = JNum 1514764800000)"
proof -
  have d: "distinct (map fst demo_note)" by (simp add: demo_note_def)
  have l: "get_prop demo_note ''_status'' \<noteq> JStr ''deleted''"
    by (simp add: demo_note_def get_prop_def)
  have h: "hasOwnProperty demo_note ''last_modified''"
    by (simp add: demo_note_def hasOwnProperty_def)
  have g: "get_prop demo_note ''id'' = JStr ''n1''"
    "get_prop demo_note ''content'' = JStr ''<p>hello</p>''"
    "get_prop demo_note ''last_modified'' = JNum 1514764800000"
    by (simp_all add: demo_note_def get_prop_def)
  from encode_decode_round_trip [OF d l demo_cipher_round_trip demo_json_round_trip, of demo_key]
  show ?thesis using d l h g by auto
qed

text \<open>
  Claim C2. Encoding a note whose \<^verbatim>\<open>_status\<close> is \<^verbatim>\<open>deleted\<close> either fails
  because encryption fails, or gives a wire record whose \<^verbatim>\<open>_status\<close> is
  \<^verbatim>\<open>updated\<close>. Decoding a tombstone, a record with no truthy \<^verbatim>\<open>content\<close> and a
  truthy \<^verbatim>\<open>deleted\<close> marker, returns the record itself, marker included, on every
  platform and under every key: nothing is decrypted.
\<close>

theorem deletion_opacity:
  "(get_prop n ''_status'' = JStr ''deleted'' \<longrightarrow>
      (case encode P key n of
         Inl e \<Rightarrow> encrypt P key n = Inl e
       | Inr w \<Rightarrow> get_prop w ''_status'' = JStr ''updated''))
   \<and> (\<not> truthy (get_prop r ''content'') \<and> truthy (get_prop r ''deleted'') \<longrightarrow>
        decode P key r = Inr (PObj r))"
proof (intro conjI impI)
  assume del: "get_prop n ''_status'' = JStr ''deleted''"
  show "case encode P key n of
          Inl e \<Rightarrow> encrypt P key n = Inl e
        | Inr w \<Rightarrow> get_prop w ''_status'' = JStr ''updated''"
  proof (cases "encrypt P key n")
    case (Inl e)
    then show ?thesis by (simp add: encode_def)
  next
    case (Inr c)
    then show ?thesis
      by (simp add: encode_def del get_prop_set_prop Let_def) (simp add: get_prop_def)
  qed
next
  assume "\<not> truthy (get_prop r ''content'') \<and> truthy (get_prop r ''deleted'')"
  then show "decode P key r = Inr (PObj r)"
    by (simp add: decode_def)
qed

theorem deletion_opacity_witness:
  "get_prop demo_deleted_note ''_status'' = JStr ''deleted''
   \<and> (\<exists>w. encode demo_platform demo_key demo_deleted_note = Inr w
          \<and> get_prop w ''_status'' = JStr ''updated'')
   \<and> \<not> truthy (get_prop demo_tombstone ''content'')
   \<and> truthy (get_prop demo_tombstone ''deleted'')
   \<and> decode demo_platform demo_key demo_tombstone = Inr (PObj demo_tombstone)"
proof -
  have a: "get_prop demo_deleted_note ''_status'' = JStr ''deleted''"
    by (simp add: demo_deleted_note_def get_prop_def)
  have b: "\<not> truthy (get_prop demo_tombstone ''content'') \<and> truthy (get_prop demo_tombstone ''deleted'')"
    by (simp add: demo_tombstone_def get_prop_def)
  have c: "\<exists>w. encode demo_platform demo_key demo_deleted_note = Inr w"
    by (simp add: encode_def encrypt_def demo_platform_def Let_def)
  from deletion_opacity [of demo_deleted_note demo_platform demo_key demo_tombstone] a b c
  show ?thesis by auto
qed

text \<open>
  Claim C3. A record with ciphertext whose \<^verbatim>\<open>kid\<close> is a string: decoding fails with
  \<^verbatim>\<open>ServerKeyNewerError\<close> when the active key's \<^verbatim>\<open>kid\<close> is strictly below the
  record's in the lexicographic order, with \<^verbatim>\<open>ServerKeyOlderError\<close> when it is strictly
  above, and when the two are equal the record is decrypted: a failure of decryption or
  parsing is the failure of decoding, an object payload always decodes, and another
  payload is returned or rejected with a \<^verbatim>\<open>TypeError\<close>.
\<close>

theorem decode_key_order:
  assumes "truthy (get_prop r ''content'')" and "get_prop r ''kid'' = JStr rk"
  shows "(kid key < rk \<longrightarrow> decode P key r = Inl ServerKeyNewerError)
       \<and> (rk < kid key \<longrightarrow> decode P key r = Inl ServerKeyOlderError)
       \<and> (rk = kid key \<longrightarrow>
            (case decrypt P key (get_prop r ''content'') of
               Inl e \<Rightarrow> decode P key r = Inl e
             | Inr (PObj d) \<Rightarrow> (\<exists>d'. decode P key r = Inr (PObj d'))
             | Inr (PPrim v) \<Rightarrow>
                 decode P key r = Inr (PPrim v) \<or> (\<exists>m. decode P key r = Inl (TypeError m))))"
proof (intro conjI impI)
  assume "kid key < rk"
  with assms show "decode P key r = Inl ServerKeyNewerError"
    by (auto simp add: decode_def)
next
  assume "rk < kid key"
  then have "\<not> kid key < rk" and "rk \<noteq> kid key" by auto
  with assms show "decode P key r = Inl ServerKeyOlderError"
    by (simp add: decode_def)
next
  assume eq: "rk = kid key"
  show "case decrypt P key (get_prop r ''content'') of
               Inl e \<Rightarrow> decode P key r = Inl e
             | Inr (PObj d) \<Rightarrow> (\<exists>d'. decode P key r = Inr (PObj d'))
             | Inr (PPrim v) \<Rightarrow>
                 decode P key r = Inr (PPrim v) \<or> (\<exists>m. decode P key r = Inl (TypeError m))"
  proof (cases "decrypt P key (get_prop r ''content'')")
    case (Inl e)
    with assms eq show ?thesis by (simp add: decode_def)
  next
    case (Inr p)
    show ?thesis
    proof (cases p)
      case (PObj d)
      with Inr assms eq show ?thesis
        by (simp add: decode_def attach_last_modified_def flag_deleted_def)
    next
      case (PPrim v)
      with Inr assms eq show ?thesis
        by (cases v) (auto simp add: decode_def attach_last_modified_def flag_deleted_def)
    qed
  qed
qed

theorem decode_key_order_witness:
  "truthy (get_prop (demo_envelope ''20190101'') ''content'')
   \<and> kid demo_key < ''20190101''
   \<and> decode demo_platform demo_key (demo_envelope ''20190101'') = Inl ServerKeyNewerError
   \<and> ''20170101'' < kid demo_key
   \<and> decode demo_platform demo_key (demo_envelope ''20170101'') = Inl ServerKeyOlderError
   \<and> (\<exists>d. decode demo_platform demo_key (demo_envelope ''20180101'') = Inr (PObj d))"
proof -
  have c: "truthy (get_prop (demo_envelope k) ''content'')" for k
    by (simp add: demo_envelope_def get_prop_def demo_tag_def)
  have k: "get_prop (demo_envelope k) ''kid'' = JStr k" for k
    by (simp add: demo_envelope_def get_prop_def)
  have o: "kid demo_key < ''20190101''" "''20170101'' < kid demo_key" "kid demo_key = ''20180101''"
    by (simp_all add: demo_key_def)
  have d: "decrypt demo_platform demo_key (get_prop (demo_envelope k) ''content'') = Inr (PObj demo_note)" for k
    by (simp add: decrypt_def demo_envelope_def get_prop_def demo_platform_def)
  from decode_key_order [OF c k, where key = demo_key and P = demo_platform and rk = "''20190101''"]
       decode_key_order [OF c k, where key = demo_key and P = demo_platform and rk = "''20170101''"]
       decode_key_order [OF c k, where key = demo_key and P = demo_platform and rk = "''20180101''"]
       c o d
  show ?thesis by simp
qed

text \<open>
  Claim C4, as the code has it. When a record with ciphertext decodes to an object, the
  ciphertext decrypted to an object payload, and the \<^verbatim>\<open>last_modified\<close> of the decoded
  note is the envelope's when the envelope has that property, whatever the payload
  carries, and the payload's own when the envelope has none.
\<close>

theorem decode_last_modified:
  assumes "truthy (get_prop r ''content'')" and "decode P key r = Inr (PObj d)"
  shows "\<exists>payload. decrypt P key (get_prop r ''content'') = Inr (PObj payload)
           \<and> get_prop d ''last_modified'' =
               (if hasOwnProperty r ''last_modified''
                then get_prop r ''last_modified''
                else get_prop payload ''last_modified'')"
proof (cases "decrypt P key (get_prop r ''content'')")
  case (Inl e)
  with assms show ?thesis by (simp add: decode_def split: if_splits)
next
  case (Inr p)
  show ?thesis
  proof (cases p)
    case (PPrim v)
    with Inr assms show ?thesis
      by (cases v) (auto simp add: decode_def attach_last_modified_def flag_deleted_def split: if_splits)
  next
    case (PObj payload)
    with Inr assms show ?thesis
      by (auto simp add: decode_def attach_last_modified_def flag_deleted_def get_prop_set_prop
          split: if_splits)
  qed
qed

theorem decode_last_modified_witness:
  "truthy (get_prop demo_envelope_stamped ''content'')
   \<and> decode demo_platform demo_key demo_envelope_stamped
       = Inr (PObj (set_prop demo_note ''last_modified'' (JNum 1514764899999)))
   \<and> decrypt demo_platform demo_key (get_prop demo_envelope_stamped ''content'')
       = Inr (PObj demo_note)
   \<and> get_prop demo_note ''last_modified'' = JNum 1514764800000
   \<and> get_prop (set_prop demo_note ''last_modified'' (JNum 1514764899999)) ''last_modified''
       = JNum 1514764899999"
proof -
  have c: "truthy (get_prop demo_envelope_stamped ''content'')"
    by (simp add: demo_envelope_stamped_def demo_envelope_def get_prop_def demo_tag_def)
  have p: "decrypt demo_platform demo_key (get_prop demo_envelope_stamped ''content'')
             = Inr (PObj demo_note)"
    by (simp add: decrypt_def demo_envelope_stamped_def demo_envelope_def get_prop_def
        demo_platform_def)
  have h: "hasOwnProperty demo_envelope_stamped ''last_modified''"
    "get_prop demo_envelope_stamped ''last_modified'' = JNum 1514764899999"
    "get_prop demo_envelope_stamped ''kid'' = JStr (kid demo_key)"
    by (simp_all add: demo_envelope_stamped_def demo_envelope_def hasOwnProperty_def
        get_prop_def demo_key_def)
  have s: "get_prop (set_prop demo_note ''last_modified'' (JNum 1514764899999)) ''_status''
             \<noteq> JStr ''deleted''"
    by (simp add: demo_note_def get_prop_def)
  have d: "decode demo_platform demo_key demo_envelope_stamped
             = Inr (PObj (set_prop demo_note ''last_modified'' (JNum 1514764899999)))"
    using c by (simp add: decode_def p h attach_last_modified_def flag_deleted_def s)
  have g: "get_prop demo_note ''last_modified'' = JNum 1514764800000"
    by (simp add: demo_note_def get_prop_def)
  from decode_last_modified [OF c d] c d p g h show ?thesis by simp
qed

text \<open>
  The claim as written fails where the envelope has no \<^verbatim>\<open>last_modified\<close> and the
  payload has one: the decoded note carries the payload's value, not none.
\<close>

theorem decode_last_modified_counterexample:
  "truthy (get_prop (demo_envelope ''20180101'') ''content'')
   \<and> \<not> hasOwnProperty (demo_envelope ''20180101'') ''last_modified''
   \<and> get_prop (demo_envelope ''20180101'') ''last_modified'' = JUndefined
   \<and> decode demo_platform demo_key (demo_envelope ''20180101'') = Inr (PObj demo_note)
   \<and> get_prop demo_note ''last_modified'' = JNum 1514764800000"
  by (simp add: demo_envelope_def get_prop_def hasOwnProperty_def decode_def decrypt_def
      demo_platform_def demo_key_def attach_last_modified_def flag_deleted_def demo_note_def
      demo_tag_def)

section \<open>Properties of conflict resolution\<close>

lemma submit_eq:
  "submit S c res pub w =
     Inr (fst (collection_resolve S c res (env w)), pub,
          w\<lparr>env := snd (collection_resolve S c res (env w)),
            calls := calls w @ [CollectionResolve c res]\<rparr>)"
  by (simp add: submit_def invoke_def split: prod.splits)

text \<open>
  Claim C5. For a conflict whose remote side is \<^verbatim>\<open>null\<close>, what is submitted to
  \<^verbatim>\<open>collection.resolve\<close> is the object made of the local record's \<^verbatim>\<open>id\<close> and
  \<^verbatim>\<open>content\<close>, with nothing appended, no metric sent and the conflict flag untouched;
  for the local record \<^verbatim>\<open>{id: "abc", content: "x"}\<close> it is that very object.
\<close>

theorem remote_absent_local_wins:
  "resolve_conflict S P pub w \<lparr>local = l, remote = None\<rparr>
     = submit S \<lparr>local = l, remote = None\<rparr>
         [(''id'', get_prop l ''id''), (''content'', get_prop l ''content'')] pub w
   \<and> resolve_conflict S P pub w
        \<lparr>local = [(''id'', JStr ''abc''), (''content'', JStr ''x'')], remote = None\<rparr>
     = Inr (fst (collection_resolve S
                   \<lparr>local = [(''id'', JStr ''abc''), (''content'', JStr ''x'')], remote = None\<rparr>
                   [(''id'', JStr ''abc''), (''content'', JStr ''x'')] (env w)),
            pub,
            w\<lparr>env := snd (collection_resolve S
                   \<lparr>local = [(''id'', JStr ''abc''), (''content'', JStr ''x'')], remote = None\<rparr>
                   [(''id'', JStr ''abc''), (''content'', JStr ''x'')] (env w)),
              calls := calls w @
                [CollectionResolve
                   \<lparr>local = [(''id'', JStr ''abc''), (''content'', JStr ''x'')], remote = None\<rparr>
                   [(''id'', JStr ''abc''), (''content'', JStr ''x'')]]\<rparr>)"
  by (simp add: resolve_conflict_def submit_eq) (simp add: get_prop_def)

text \<open>
  Claim C6. For a conflict whose remote record is present and is not the one named
  \<^verbatim>\<open>singleNote\<close>, the resolution submitted has the remote \<^verbatim>\<open>id\<close>, and as
  content the remote content, then the banner \<^verbatim>\<open><p>mergeWarning</p>\<close>, then the
  local content, each content as the string that \<^verbatim>\<open>+=\<close> makes of it (a string
  content is itself). The conflict flag is set and the metric sent before.
\<close>

theorem remote_present_merge:
  assumes "remote c = Some rem"
    and "get_prop rem ''id'' \<noteq> JStr ''singleNote''"
  shows "resolve_conflict S P pub w c
     = submit S c
         [(''id'', get_prop rem ''id''),
          (''content'',
           JStr (to_string P (get_prop rem ''content'')
                 @ ''<p>'' @ getMessage S ''mergeWarning'' @ ''</p>''
                 @ to_string P (get_prop (local c) ''content'')))]
         pub (note_call (SendMetrics ''handle-conflict'') (w\<lparr>client_conflict := True\<rparr>))"
  using assms by (simp add: resolve_conflict_def Let_def)

theorem remote_present_merge_witness:
  "remote demo_both = Some [(''id'', JStr ''n1''), (''content'', JStr ''theirs'')]
   \<and> resolve_conflict demo_services demo_platform [] (demo_world [] False False) demo_both
     = Inr (Inr (), [],
            (demo_world [] False True)
              \<lparr>calls := [SendMetrics ''handle-conflict'',
                         CollectionResolve demo_both
                           [(''id'', JStr ''n1''),
                            (''content'', JStr ''theirs<p>MERGED</p>mine'')]]\<rparr>)"
proof -
  have r: "remote demo_both = Some [(''id'', JStr ''n1''), (''content'', JStr ''theirs'')]"
    by (simp add: demo_both_def)
  have i: "get_prop [(''id'', JStr ''n1''), (''content'', JStr ''theirs'')] ''id'' \<noteq> JStr ''singleNote''"
    by (simp add: get_prop_def)
  have rc: "get_prop [(''id'', JStr ''n1''), (''content'', JStr ''theirs'')] ''content'' = JStr ''theirs''"
    by (simp add: get_prop_def)
  have lc: "get_prop (local demo_both) ''content'' = JStr ''mine''"
    by (simp add: demo_both_def get_prop_def)
  from remote_present_merge [OF r i, of demo_services demo_platform "[]" "demo_world [] False False"]
  show ?thesis
    by (simp add: r rc lc submit_eq note_call_def demo_world_def)
       (simp add: demo_services_def get_prop_def)
qed

lemma find_wasSingleNote_bound:
  "find_wasSingleNote pub = Some i \<Longrightarrow> i < length pub \<and> truthy (get_prop (pub ! i) ''wasSingleNote'')"
proof (induction pub arbitrary: i)
  case Nil
  then show ?case by simp
next
  case (Cons q qs)
  then show ?case by (auto split: if_splits)
qed

lemma find_wasSingleNote_update:
  "find_wasSingleNote pub = Some i \<Longrightarrow> truthy (get_prop x ''wasSingleNote'')
     \<Longrightarrow> find_wasSingleNote (pub[i := x]) = Some i"
proof (induction pub arbitrary: i)
  case Nil
  then show ?case by simp
next
  case (Cons q qs)
  then show ?case by (auto split: if_splits)
qed

lemma published_after_submit: "published_after (submit S c res pub w) = Some pub"
  by (simp add: published_after_def submit_eq)

lemma set_prop_twice: "set_prop (set_prop r p v) p v' = set_prop r p v'"
  by (induction r) auto

text \<open>
  Claim C7, as the code has it. Resolving the conflict on the record named
  \<^verbatim>\<open>singleNote\<close> writes, into the first published record flagged
  \<^verbatim>\<open>wasSingleNote\<close>, the remote content, the banner and that record's content before.
  Resolving the same conflict again on the published records as the first resolution
  left them writes the remote content and the banner twice before the original content:
  the merge text is appended again.
\<close>

theorem sentinel_merge_repeats:
  fixes S :: "'e services" and w w' :: "'e world" and P :: platform
    and rem :: jsobj and pub :: "jsobj list" and i :: nat
  assumes "remote c = Some rem"
    and "get_prop rem ''id'' = JStr ''singleNote''"
    and "find_wasSingleNote pub = Some i"
  defines "prefix \<equiv> to_string P (get_prop rem ''content'') @ ''<p>'' @ getMessage S ''mergeWarning'' @ ''</p>''"
  defines "before \<equiv> to_string P (get_prop (pub ! i) ''content'')"
  defines "pub1 \<equiv> pub[i := set_prop (pub ! i) ''content'' (JStr (prefix @ before))]"
  shows "published_after (resolve_conflict S P pub w c) = Some pub1
       \<and> published_after (resolve_conflict S P pub1 w' c)
           = Some (pub[i := set_prop (pub ! i) ''content'' (JStr (prefix @ prefix @ before))])"
proof -
  have b: "i < length pub" and t: "truthy (get_prop (pub ! i) ''wasSingleNote'')"
    using find_wasSingleNote_bound [OF assms(3)] by simp_all
  have first: "published_after (resolve_conflict S P pub w c) = Some pub1"
    using assms(1-3)
    by (simp add: resolve_conflict_def Let_def published_after_submit pub1_def prefix_def before_def)
  have t1: "truthy (get_prop (set_prop (pub ! i) ''content'' (JStr (prefix @ before))) ''wasSingleNote'')"
    using t by (simp add: get_prop_set_prop)
  have f1: "find_wasSingleNote pub1 = Some i"
    unfolding pub1_def by (rule find_wasSingleNote_update [OF assms(3) t1])
  have n1: "pub1 ! i = set_prop (pub ! i) ''content'' (JStr (prefix @ before))"
    using b by (simp add: pub1_def)
  have c1: "to_string P (get_prop (pub1 ! i) ''content'') = prefix @ before"
    by (simp add: n1 get_prop_set_prop)
  have "published_after (resolve_conflict S P pub1 w' c)
          = Some (pub1[i := set_prop (pub1 ! i) ''content'' (JStr (prefix @ prefix @ before))])"
    using assms(1,2) f1 c1
    by (simp add: resolve_conflict_def Let_def published_after_submit prefix_def)
  also have "pub1[i := set_prop (pub1 ! i) ''content'' (JStr (prefix @ prefix @ before))]
          = pub[i := set_prop (pub ! i) ''content'' (JStr (prefix @ prefix @ before))]"
    by (simp add: n1 set_prop_twice) (simp add: pub1_def)
  finally show ?thesis using first by simp
qed

theorem sentinel_merge_repeats_witness:
  "remote demo_sentinel = Some [(''id'', JStr ''singleNote''), (''content'', JStr ''old'')]
   \<and> find_wasSingleNote demo_published = Some 1
   \<and> published_after (resolve_conflict demo_services demo_platform demo_published
        (demo_world [] False False) demo_sentinel)
      = Some [[(''id'', JStr ''n0''), (''content'', JStr ''other'')],
              [(''id'', JStr ''n1''), (''content'', JStr ''old<p>MERGED</p>new''),
               (''wasSingleNote'', JBool True)]]
   \<and> published_after (resolve_conflict demo_services demo_platform
        [[(''id'', JStr ''n0''), (''content'', JStr ''other'')],
         [(''id'', JStr ''n1''), (''content'', JStr ''old<p>MERGED</p>new''),
          (''wasSingleNote'', JBool True)]]
        (demo_world [] False True) demo_sentinel)
      = Some [[(''id'', JStr ''n0''), (''content'', JStr ''other'')],
              [(''id'', JStr ''n1''), (''content'', JStr ''old<p>MERGED</p>old<p>MERGED</p>new''),
               (''wasSingleNote'', JBool True)]]"
proof -
  have r: "remote demo_sentinel = Some [(''id'', JStr ''singleNote''), (''content'', JStr ''old'')]"
    by (simp add: demo_sentinel_def)
  have i: "get_prop [(''id'', JStr ''singleNote''), (''content'', JStr ''old'')] ''id'' = JStr ''singleNote''"
    by (simp add: get_prop_def)
  have f: "find_wasSingleNote demo_published = Some 1"
    by (simp add: demo_published_def get_prop_def)
  from sentinel_merge_repeats [OF r i f, where P = demo_platform and S = demo_services
         and w = "demo_world [] False False" and w' = "demo_world [] False True"]
  show ?thesis
    by (simp add: r f) (simp add: demo_published_def demo_services_def get_prop_def)
qed

text \<open>
  The claim as written fails: the two merged contents differ.
\<close>

theorem sentinel_merge_repeats_counterexample:
  "published_after (resolve_conflict demo_services demo_platform demo_published
        (demo_world [] False False) demo_sentinel)
      = Some [[(''id'', JStr ''n0''), (''content'', JStr ''other'')],
              [(''id'', JStr ''n1''), (''content'', JStr ''old<p>MERGED</p>new''),
               (''wasSingleNote'', JBool True)]]
   \<and> published_after (resolve_conflict demo_services demo_platform
        [[(''id'', JStr ''n0''), (''content'', JStr ''other'')],
         [(''id'', JStr ''n1''), (''content'', JStr ''old<p>MERGED</p>new''),
          (''wasSingleNote'', JBool True)]]
        (demo_world [] False True) demo_sentinel)
      = Some [[(''id'', JStr ''n0''), (''content'', JStr ''other'')],
              [(''id'', JStr ''n1''), (''content'', JStr ''old<p>MERGED</p>old<p>MERGED</p>new''),
               (''wasSingleNote'', JBool True)]]
   \<and> ''old<p>MERGED</p>new'' \<noteq> ''old<p>MERGED</p>old<p>MERGED</p>new''"
  by (simp add: resolve_conflict_def demo_sentinel_def demo_published_def get_prop_def
      published_after_submit demo_services_def Let_def)

section \<open>Properties of the orchestrator\<close>

lemma loaded_notes_append: "loaded_notes (xs @ ys) = loaded_notes xs @ loaded_notes ys"
  by (simp add: loaded_notes_def)

lemma synced_flags_append: "synced_flags (xs @ ys) = synced_flags xs @ synced_flags ys"
  by (simp add: synced_flags_def)

lemma quiet_refl: "quiet S w w"
  by (simp add: quiet_def loaded_notes_def synced_flags_def)

lemma quiet_trans: "quiet S w w' \<Longrightarrow> quiet S w' w'' \<Longrightarrow> quiet S w w''"
  unfolding quiet_def
  by (elim exE conjE, rule_tac x = "new @ newa" in exI)
     (auto simp add: loaded_notes_append synced_flags_append)

lemma silent_single:
  "silent c \<Longrightarrow> loaded_notes [c] = [] \<and> synced_flags [c] = [] \<and> c \<noteq> SendMetrics ''handle-conflict''"
  by (auto simp add: silent_def loaded_notes_def synced_flags_def split: call.splits message.splits)

lemma quiet_invoke: "silent c \<Longrightarrow> invoke c f w = (r, w') \<Longrightarrow> quiet S w w'"
  using silent_single [of c]
  by (auto simp add: invoke_def quiet_def split: prod.splits)

lemma quiet_yield: "quiet S w (yield S w)"
  by (simp add: yield_def quiet_def loaded_notes_def synced_flags_def alone_def)

lemma quiet_await: "silent c \<Longrightarrow> await S c f w = (r, w') \<Longrightarrow> quiet S w w'"
  by (auto simp add: await_def split: prod.splits
      intro: quiet_trans [OF quiet_invoke quiet_yield])

lemma quiet_note_call: "silent c \<Longrightarrow> quiet S w (note_call c w)"
  using silent_single [of c]
  by (auto simp add: note_call_def quiet_def)

lemma quiet_snd_invoke: "silent c \<Longrightarrow> quiet S w (snd (invoke c f w))"
  by (cases "invoke c f w") (simp add: quiet_invoke)

lemma quiet_reconnectSync: "quiet S w (reconnectSync S w)"
  unfolding reconnectSync_def
  by (rule quiet_trans [OF quiet_snd_invoke quiet_snd_invoke]) (simp_all add: silent_def)

lemma submit_world:
  "submit S c res pub w = Inr (outcome, pub', w')
     \<Longrightarrow> calls w' = calls w @ [CollectionResolve c res] \<and> client_conflict w' = client_conflict w"
  by (auto simp add: submit_def invoke_def split: prod.splits)

lemma quiet_resolve_conflict:
  assumes "resolve_conflict S P pub w c = Inr (outcome, pub', w')"
  shows "quiet S w w'"
proof (cases "remote c")
  case None
  with assms have "\<exists>res. submit S c res pub w = Inr (outcome, pub', w')"
    by (auto simp add: resolve_conflict_def)
  then obtain res where "calls w' = calls w @ [CollectionResolve c res]"
    and "client_conflict w' = client_conflict w"
    using submit_world by blast
  then show ?thesis
    by (simp add: quiet_def loaded_notes_def synced_flags_def)
next
  case (Some rem)
  then have rr: "resolves_remote (CollectionResolve c res)" for res
    by (simp add: resolves_remote_def)
  show ?thesis
  proof (cases "get_prop rem ''id'' = JStr ''singleNote''")
    case False
    with Some assms obtain res where "submit S c res pub
        (note_call (SendMetrics ''handle-conflict'') (w\<lparr>client_conflict := True\<rparr>)) = Inr (outcome, pub', w')"
      by (auto simp add: resolve_conflict_def Let_def)
    from submit_world [OF this]
    have "calls w' = calls w @ [SendMetrics ''handle-conflict'', CollectionResolve c res]"
      and "client_conflict w'"
      by (simp_all add: note_call_def)
    then show ?thesis
      using rr by (simp add: quiet_def loaded_notes_def synced_flags_def)
  next
    case True
    with Some assms obtain i where "find_wasSingleNote pub = Some i"
      by (auto simp add: resolve_conflict_def Let_def split: option.splits)
    with True Some assms obtain x pubx where
      s: "submit S c (local c) pubx
            (note_call (SendMetrics ''handle-conflict'')
               ((note_call (SendMetric ''migrate-single-note'')
                   (snd (invoke (CollectionUpsert x) (collection_upsert S x) w)))
                \<lparr>client_conflict := True\<rparr>)) = Inr (outcome, pub', w')"
      by (auto simp add: resolve_conflict_def Let_def)
    from submit_world [OF s]
    have "calls w' = calls w @ [CollectionUpsert x, SendMetric ''migrate-single-note'',
             SendMetrics ''handle-conflict'', CollectionResolve c (local c)]"
      and "client_conflict w'"
      by (simp_all add: note_call_def invoke_def split: prod.splits)
    then show ?thesis
      using rr by (simp add: quiet_def loaded_notes_def synced_flags_def)
  qed
qed

lemma quiet_resolve_all:
  "resolve_all S P cs rejected pub w = (r, w') \<Longrightarrow> quiet S w w'"
proof (induction cs arbitrary: rejected pub w)
  case Nil
  then show ?case by (auto simp add: quiet_yield)
next
  case (Cons c cs)
  show ?case
  proof (cases "resolve_conflict S P pub w c")
    case (Inl e)
    with Cons.prems show ?thesis by (auto simp add: quiet_refl)
  next
    case (Inr t)
    then obtain outcome pub1 w1 where t: "resolve_conflict S P pub w c = Inr (outcome, pub1, w1)"
      by (cases t) auto
    with Cons.prems obtain rej where "resolve_all S P cs rej pub1 w1 = (r, w')" by auto
    then have "quiet S w1 w'" by (rule Cons.IH)
    with quiet_resolve_conflict [OF t] show ?thesis by (rule quiet_trans)
  qed
qed

lemma quiet_fetch_and_sync: "fetch_and_sync S w = (r, l, w') \<Longrightarrow> quiet S w w'"
  unfolding fetch_and_sync_def
  by (auto split: prod.splits sum.splits option.splits
      dest!: quiet_await [rotated] simp: silent_def intro: quiet_trans)

lemma quiet_reset_and_retry_Settled: "reset_and_retry S l w = Settled r w' \<Longrightarrow> quiet S w w'"
  unfolding reset_and_retry_def
  by (auto split: prod.splits sum.splits if_splits
      dest!: quiet_await [rotated] simp: silent_def quiet_refl)

lemma quiet_reset_and_retry_Retry: "reset_and_retry S l w = Retry w' \<Longrightarrow> quiet S w w'"
  unfolding reset_and_retry_def
  by (auto split: prod.splits sum.splits if_splits
      dest!: quiet_await [rotated] simp: silent_def quiet_refl)

lemma quiet_catch_handler_Settled:
  assumes "catch_handler S l error w = Settled r w'"
  shows "quiet S w w'"
proof -
  have nc: "quiet S w (note_call (ConsoleError error) w)"
    by (rule quiet_note_call) (simp add: silent_def)
  have rc: "quiet S w (reconnectSync S (note_call (ConsoleError error) w))"
    by (rule quiet_trans [OF nc quiet_reconnectSync])
  have dc: "await S (DeleteCollection t) (deleteCollection S t) (note_call (ConsoleError error) w) = (x, w2)
      \<Longrightarrow> quiet S w w2" for t x w2
    using quiet_trans [OF nc quiet_await [where c = "DeleteCollection t"]]
    by (simp add: silent_def)
  have dcr: "await S (DeleteCollection t) (deleteCollection S t) (note_call (ConsoleError error) w) = (x, w2)
      \<Longrightarrow> reset_and_retry S l w2 = Settled r w' \<Longrightarrow> quiet S w w'" for t x w2
    using quiet_trans [OF dc quiet_reset_and_retry_Settled] by blast
  from assms show ?thesis
    unfolding catch_handler_def Let_def
    by (auto split: if_splits option.splits prod.splits sum.splits jsval.splits
        simp: quiet_refl quiet_reconnectSync nc rc
        dest: dc dcr quiet_reset_and_retry_Settled)
qed

lemma quiet_catch_handler_Retry:
  assumes "catch_handler S l error w = Retry w'"
  shows "quiet S w w'"
proof -
  have nc: "quiet S w (note_call (ConsoleError error) w)"
    by (rule quiet_note_call) (simp add: silent_def)
  have dc: "await S (DeleteCollection t) (deleteCollection S t) (note_call (ConsoleError error) w) = (x, w2)
      \<Longrightarrow> quiet S w w2" for t x w2
    using quiet_trans [OF nc quiet_await [where c = "DeleteCollection t"]]
    by (simp add: silent_def)
  have dcr: "await S (DeleteCollection t) (deleteCollection S t) (note_call (ConsoleError error) w) = (x, w2)
      \<Longrightarrow> reset_and_retry S l w2 = Retry w' \<Longrightarrow> quiet S w w'" for t x w2
    using quiet_trans [OF dc quiet_reset_and_retry_Retry] by blast
  from assms show ?thesis
    unfolding catch_handler_def Let_def
    by (auto split: if_splits option.splits prod.splits sum.splits jsval.splits
        dest: dcr quiet_reset_and_retry_Retry)
qed

lemma quiet_attempt:
  assumes again: "\<And>v r v'. again v = Some (r, v') \<Longrightarrow> quiet S v v'"
    and "attempt again S P w = Some (l, r, w')"
  shows "quiet S w w'"
proof -
  obtain r1 l1 w1 where f: "fetch_and_sync S w = (r1, l1, w1)" by (cases "fetch_and_sync S w") auto
  have q1: "quiet S w w1" by (rule quiet_fetch_and_sync [OF f])
  show ?thesis
  proof (cases r1)
    case (Inl e)
    with assms(2) f q1 show ?thesis by (simp add: attempt_def)
  next
    case (Inr sr)
    show ?thesis
    proof (cases sr)
      case None
      with Inr assms(2) f q1 show ?thesis by (simp add: attempt_def)
    next
      case (Some syncResult)
      show ?thesis
      proof (cases "conflicts syncResult = []")
        case True
        with Some Inr assms(2) f q1 show ?thesis by (simp add: attempt_def)
      next
        case False
        obtain r2 w2 where ra: "resolve_all S P (conflicts syncResult) None (published syncResult) w1 = (r2, w2)"
          by (cases "resolve_all S P (conflicts syncResult) None (published syncResult) w1") auto
        have q2: "quiet S w w2" by (rule quiet_trans [OF q1 quiet_resolve_all [OF ra]])
        show ?thesis
        proof (cases r2)
          case (Inl e)
          with False Some Inr assms(2) f ra q2 show ?thesis by (simp add: attempt_def)
        next
          case (Inr u)
          with False Some \<open>r1 = Inr sr\<close> assms(2) f ra have "again w2 = Some (r, w')"
            by (auto simp add: attempt_def)
          from quiet_trans [OF q2 again [OF this]] show ?thesis .
        qed
      qed
    qed
  qed
qed

lemma quiet_syncKinto: "syncKinto n S P w = Some (r, w') \<Longrightarrow> quiet S w w'"
proof (induction n arbitrary: w r w')
  case 0
  then show ?case by simp
next
  case (Suc n)
  from Suc.prems obtain l r1 w1 where a: "attempt (syncKinto n S P) S P w = Some (l, r1, w1)"
    by (auto split: option.splits)
  have q1: "quiet S w w1" by (rule quiet_attempt [OF Suc.IH a])
  show ?case
  proof (cases r1)
    case (Inr u)
    with Suc.prems a q1 show ?thesis by simp
  next
    case (Inl error)
    show ?thesis
    proof (cases "catch_handler S l error w1")
      case (Settled r2 w2)
      with Inl Suc.prems a have "w' = w2" by simp
      with quiet_catch_handler_Settled [OF Settled] q1 show ?thesis
        by (auto intro: quiet_trans)
    next
      case (Retry w2)
      with Inl Suc.prems a have "syncKinto n S P w2 = Some (r, w')" by simp
      then have "quiet S w2 w'" by (rule Suc.IH)
      with quiet_catch_handler_Retry [OF Retry] q1 show ?thesis
        by (auto intro: quiet_trans)
    qed
  qed
qed

text \<open>
  Fuel only bounds the number of nested cycles: a cycle that settles with some fuel
  settles the same way with more.
\<close>

lemma attempt_mono:
  assumes "\<And>v x. again v = Some x \<Longrightarrow> again' v = Some x"
    and "attempt again S P w = Some y"
  shows "attempt again' S P w = Some y"
  using assms(2)
  by (auto simp add: attempt_def split: prod.splits sum.splits option.splits if_splits
      dest: assms(1))

lemma syncKinto_Suc: "syncKinto n S P w = Some x \<Longrightarrow> syncKinto (Suc n) S P w = Some x"
proof (induction n arbitrary: w x)
  case 0
  then show ?case by simp
next
  case (Suc n)
  from Suc.prems obtain l r1 w1 where a: "attempt (syncKinto n S P) S P w = Some (l, r1, w1)"
    by (auto split: option.splits)
  have a': "attempt (syncKinto (Suc n) S P) S P w = Some (l, r1, w1)"
    by (rule attempt_mono [OF Suc.IH a])
  show ?case
  proof (cases r1)
    case (Inr u)
    with Suc.prems a a' show ?thesis
      by (auto simp del: syncKinto.simps simp add: syncKinto.simps(2) [of "Suc n"] syncKinto.simps(2) [of n])
  next
    case (Inl error)
    show ?thesis
    proof (cases "catch_handler S l error w1")
      case (Settled r2 w2)
      with Inl Suc.prems a a' show ?thesis
        by (auto simp del: syncKinto.simps simp add: syncKinto.simps(2) [of "Suc n"] syncKinto.simps(2) [of n])
    next
      case (Retry w2)
      with Inl Suc.prems a have "syncKinto n S P w2 = Some x" by simp
      then have "syncKinto (Suc n) S P w2 = Some x" by (rule Suc.IH)
      with Retry Inl a' show ?thesis
        by (auto simp del: syncKinto.simps simp add: syncKinto.simps(2) [of "Suc n"])
    qed
  qed
qed

lemma syncKinto_more_fuel: "syncKinto n S P w = Some x \<Longrightarrow> syncKinto (n + k) S P w = Some x"
  by (induction k) (simp_all add: syncKinto_Suc del: syncKinto.simps)

lemma quiet_calls:
  assumes "quiet S w w'"
  shows "take (length (calls w)) (calls w') = calls w"
    and "loaded_notes (new_calls w w') = []"
    and "synced_flags (new_calls w w') = []"
    and "SendMetrics ''handle-conflict'' \<in> set (new_calls w w')
           \<Longrightarrow> list_ex resolves_remote (new_calls w w')"
    and "alone S \<Longrightarrow> client_conflict w'
           = (client_conflict w \<or> SendMetrics ''handle-conflict'' \<in> set (new_calls w w'))"
  using assms by (auto simp add: quiet_def new_calls_def)

lemma reconnectSync_eq:
  "reconnectSync S w =
     w\<lparr>env := snd (sendMessage S Reconnect (snd (credentials_clear S (env w)))),
       calls := calls w @ [CredentialsClear, SendMessage Reconnect]\<rparr>"
  by (simp add: reconnectSync_def invoke_def split: prod.splits)

text \<open>
  Claim C8, as the code has it. When what a sync cycle attempts before its catch
  (credential, renewal, the store's sync, the resolution of conflicts, the sync after
  them) fails with a value whose \<^verbatim>\<open>response.status\<close> is 401, the cycle settles as
  resolved, for every amount of fuel left; after the failure it calls
  \<^verbatim>\<open>credentials.clear()\<close> and sends the \<^verbatim>\<open>reconnect\<close> message, and nothing
  else: no further sync.
\<close>

theorem unauthorized_reconnects:
  assumes "attempt (syncKinto n S P) S P w = Some (l, Inl error, w1)"
    and "response_status error = Some (JNum 401)"
  shows "syncKinto (Suc n) S P w = Some (Inr (), reconnectSync S w1)
       \<and> calls (reconnectSync S w1) = calls w1 @ [CredentialsClear, SendMessage Reconnect]
       \<and> env (reconnectSync S w1)
           = snd (sendMessage S Reconnect (snd (credentials_clear S (env w1))))"
  using assms by (simp add: catch_handler_def reconnectSync_eq)

lemma demo_fetch_and_sync:
  "fetch_and_sync demo_services
     \<lparr>env = \<lparr>stored_credential = Some demo_credential, sync_outcomes = r # rs,
              upsert_fails = f, local_notes = ns\<rparr>,
       calls = cs, client_conflict = b\<rparr>
   = (map_sum id Some r, \<lparr>credential = Some demo_credential, collection = True\<rparr>,
      \<lparr>env = \<lparr>stored_credential = Some demo_credential, sync_outcomes = rs,
               upsert_fails = f, local_notes = ns\<rparr>,
        calls = cs @ [CredentialsGet, FxaRenewCredential demo_credential,
                      CredentialsSet demo_credential, CollectionSync demo_key ''token''],
        client_conflict = b\<rparr>)"
  by (cases r)
     (simp_all add: fetch_and_sync_def await_def yield_def invoke_def demo_services_def
        demo_credential_def)

theorem unauthorized_reconnects_witness:
  "response_status unauthorized = Some (JNum 401)
   \<and> syncKinto (Suc 0) demo_services demo_platform (demo_world [Inl unauthorized] False False)
      = Some (Inr (),
          \<lparr>env = \<lparr>stored_credential = None, sync_outcomes = [],
                   upsert_fails = False, local_notes = [demo_note]\<rparr>,
            calls = [CredentialsGet, FxaRenewCredential demo_credential,
                     CredentialsSet demo_credential, CollectionSync demo_key ''token'',
                     CredentialsClear, SendMessage Reconnect],
            client_conflict = False\<rparr>)"
proof -
  have s: "response_status unauthorized = Some (JNum 401)"
    by (simp add: unauthorized_def)
  have a: "attempt (syncKinto 0 demo_services demo_platform) demo_services demo_platform
             (demo_world [Inl unauthorized] False False)
           = Some (\<lparr>credential = Some demo_credential, collection = True\<rparr>, Inl unauthorized,
               \<lparr>env = \<lparr>stored_credential = Some demo_credential, sync_outcomes = [],
                        upsert_fails = False, local_notes = [demo_note]\<rparr>,
                 calls = [CredentialsGet, FxaRenewCredential demo_credential,
                          CredentialsSet demo_credential, CollectionSync demo_key ''token''],
                 client_conflict = False\<rparr>)"
    by (simp add: attempt_def demo_world_def demo_fetch_and_sync)
  from unauthorized_reconnects [OF a s] s show ?thesis
    by (simp add: reconnectSync_eq demo_services_def)
qed

text \<open>
  The claim as written fails for a 401 that the store raises inside the catch: the sync
  fails with \<^verbatim>\<open>ServerKeyOlderError\<close>, the deletion of the collection is answered
  401, and the promise of the cycle is rejected with that answer. The credential stays
  stored, \<^verbatim>\<open>credentials.clear()\<close> is not called and no \<^verbatim>\<open>reconnect\<close> is sent.
\<close>

theorem unauthorized_reconnects_counterexample:
  "response_status unauthorized = Some (JNum 401)
   \<and> syncKinto (Suc 0) delete_unauthorized demo_platform
        (demo_world [Inl ServerKeyOlderError] False False)
      = Some (Inl unauthorized,
          \<lparr>env = \<lparr>stored_credential = Some demo_credential, sync_outcomes = [],
                   upsert_fails = False, local_notes = [demo_note]\<rparr>,
            calls = [CredentialsGet, FxaRenewCredential demo_credential,
                     CredentialsSet demo_credential, CollectionSync demo_key ''token'',
                     ConsoleError ServerKeyOlderError, DeleteCollection ''token''],
            client_conflict = False\<rparr>)"
  by (simp add: attempt_def fetch_and_sync_def await_def yield_def invoke_def
      delete_unauthorized_def demo_services_def demo_world_def demo_credential_def
      catch_handler_def ServerKeyOlderError_def unauthorized_def note_call_def)

text \<open>
  Claim C9, as the code has it. When the sync cycle of a load settles, resolved or
  rejected, the load finishes the same way with any more fuel, keeps the earlier calls,
  and sends exactly one \<^verbatim>\<open>kinto-loaded\<close> message: with the local list as retrieved
  after the cycle, or with \<^verbatim>\<open>null\<close> when the retrieval of the list itself fails.
\<close>

theorem load_reports_once:
  assumes "syncKinto n S P w = Some (outcome, w1)"
  shows "\<exists>w2. (\<forall>k. loadFromKinto (n + k) S P w = Some w2)
           \<and> take (length (calls w)) (calls w2) = calls w
           \<and> loaded_notes (new_calls w w2)
               = [case fst (collection_list S (env w1)) of
                    Inl e \<Rightarrow> None
                  | Inr data \<Rightarrow> Some data]"
proof -
  from quiet_syncKinto [OF assms] obtain new where
    n: "calls w1 = calls w @ new" "loaded_notes new = []"
    by (auto simp add: quiet_def)
  have m: "syncKinto (n + k) S P w = Some (outcome, w1)" for k
    by (rule syncKinto_more_fuel [OF assms])
  obtain r e where l: "collection_list S (env w1) = (r, e)"
    by (cases "collection_list S (env w1)") auto
  show ?thesis
    using n l
    by (cases r)
       (simp_all add: loadFromKinto_def m retrieveNote_def await_def yield_def invoke_def
          new_calls_def loaded_notes_append split: prod.splits,
        simp_all add: loaded_notes_def)
qed

theorem load_reports_once_witness:
  "syncKinto (Suc 0) demo_services demo_platform (demo_world [Inl (Error ''boom'')] False False)
     = Some (Inl (Error ''boom''),
          \<lparr>env = \<lparr>stored_credential = None, sync_outcomes = [],
                   upsert_fails = False, local_notes = [demo_note]\<rparr>,
            calls = [CredentialsGet, FxaRenewCredential demo_credential,
                     CredentialsSet demo_credential, CollectionSync demo_key ''token'',
                     ConsoleError (Error ''boom''), CredentialsClear, SendMessage Reconnect],
            client_conflict = False\<rparr>)
   \<and> (\<exists>w2. (\<forall>k. loadFromKinto (Suc 0 + k) demo_services demo_platform
                    (demo_world [Inl (Error ''boom'')] False False) = Some w2)
          \<and> loaded_notes (new_calls (demo_world [Inl (Error ''boom'')] False False) w2)
              = [Some [demo_note]])"
proof -
  have s: "syncKinto (Suc 0) demo_services demo_platform (demo_world [Inl (Error ''boom'')] False False)
     = Some (Inl (Error ''boom''),
          \<lparr>env = \<lparr>stored_credential = None, sync_outcomes = [],
                   upsert_fails = False, local_notes = [demo_note]\<rparr>,
            calls = [CredentialsGet, FxaRenewCredential demo_credential,
                     CredentialsSet demo_credential, CollectionSync demo_key ''token'',
                     ConsoleError (Error ''boom''), CredentialsClear, SendMessage Reconnect],
            client_conflict = False\<rparr>)"
    by (simp add: attempt_def demo_world_def demo_fetch_and_sync)
       (simp add: catch_handler_def Error_def reconnectSync_eq note_call_def demo_services_def)
  have c: "fst (collection_list demo_services
                  \<lparr>stored_credential = None, sync_outcomes = [],
                     upsert_fails = False, local_notes = [demo_note]\<rparr>) = Inr [demo_note]"
    by (simp add: demo_services_def)
  from load_reports_once [OF s] s c show ?thesis
    by auto
qed

text \<open>
  With a store that reports a conflict in every round, each cycle resolves the conflict
  and starts the next: no amount of fuel lets it settle.
\<close>

lemma conflict_forever_never_settles:
  "stored_credential (env w) = Some c \<Longrightarrow> syncKinto n conflict_forever P w = None"
proof (induction n arbitrary: w c)
  case 0
  then show ?case by simp
next
  case (Suc n)
  define w4 where "w4 = w\<lparr>calls := calls w @ [CredentialsGet, FxaRenewCredential c,
                      CredentialsSet c, CollectionSync (cred_key c) (access_token c)]\<rparr>"
  define w5 where "w5 = w4\<lparr>calls := calls w4 @ [SendMetrics ''handle-conflict'',
        CollectionResolve demo_both
          [(''id'', JStr ''n1''), (''content'', JStr (''theirs<p>MERGED</p>mine''))]],
        client_conflict := True\<rparr>"
  have e: "env w\<lparr>stored_credential := Some c\<rparr> = env w"
    using Suc.prems by simp
  have f: "fetch_and_sync conflict_forever w
        = (Inr (Some \<lparr>conflicts = [demo_both], published = []\<rparr>),
           \<lparr>credential = Some c, collection = True\<rparr>, w4)"
    using Suc.prems
    by (simp add: fetch_and_sync_def await_def yield_def invoke_def conflict_forever_def
        demo_services_def w4_def e)
  have r: "resolve_all conflict_forever P [demo_both] None [] w4 = (Inr (), w5)"
    by (simp add: resolve_conflict_def submit_eq note_call_def Let_def get_prop_def
        demo_both_def conflict_forever_def demo_services_def yield_def w5_def)
  have "stored_credential (env w5) = Some c"
    using Suc.prems by (simp add: w5_def w4_def)
  then have "syncKinto n conflict_forever P w5 = None"
    by (rule Suc.IH)
  then have "attempt (syncKinto n conflict_forever P) conflict_forever P w = None"
    by (simp add: attempt_def f r del: resolve_all.simps)
  then show ?case by simp
qed

text \<open>
  The claim as written fails when the sync cycle never settles: the load never reaches
  the retrieval of the list, and sends no \<^verbatim>\<open>kinto-loaded\<close> message at all.
\<close>

theorem load_reports_once_counterexample:
  "\<forall>n. loadFromKinto n conflict_forever demo_platform (demo_world [] False False) = None"
proof
  fix n
  have "stored_credential (env (demo_world [] False False)) = Some demo_credential"
    by (simp add: demo_world_def)
  then have "syncKinto n conflict_forever demo_platform (demo_world [] False False) = None"
    by (rule conflict_forever_never_settles)
  then show "loadFromKinto n conflict_forever demo_platform (demo_world [] False False) = None"
    by (simp add: loadFromKinto_def)
qed

lemma report_synced_calls:
  assumes "alone S"
  shows "\<exists>k>0. \<exists>tail. calls (report_synced S w) = calls w @ CollectionList # tail
       \<and> synced_flags tail = replicate k (client_conflict w)"
proof -
  have y: "yield S v = v" for v
    using assms by (simp add: yield_def alone_def)
  obtain r e where l: "collection_list S (env w) = (r, e)"
    by (cases "collection_list S (env w)") auto
  show ?thesis
  proof (cases r)
    case (Inl err)
    with l show ?thesis
      by (intro exI [of _ "Suc 0"])
         (simp add: report_synced_def retrieveNote_def await_def y invoke_def synced_flags_def
            split: prod.splits)
  next
    case (Inr data)
    obtain r2 e2 where m: "sendMessage S (TextSynced (Some data) (client_conflict w)) e = (r2, e2)"
      by (cases "sendMessage S (TextSynced (Some data) (client_conflict w)) e") auto
    show ?thesis
    proof (cases r2)
      case (Inr u)
      with \<open>r = Inr data\<close> l m show ?thesis
        by (intro exI [of _ "Suc 0"])
           (simp add: report_synced_def retrieveNote_def await_def y invoke_def synced_flags_def
              split: prod.splits)
    next
      case (Inl err)
      with \<open>r = Inr data\<close> l m show ?thesis
        by (intro exI [of _ "Suc (Suc 0)"])
           (simp add: report_synced_def retrieveNote_def await_def y invoke_def synced_flags_def
              split: prod.splits)
    qed
  qed
qed

text \<open>
  Claim C10, as the code has it. In a fired save cycle that is alone, whose local upsert
  succeeds and whose sync settles: the cycle ends the same way with any more fuel and
  whatever the conflict flag was before; the flag is false when the sync begins; at
  least one \<^verbatim>\<open>text-synced\<close> message is sent; the \<^verbatim>\<open>conflict\<close> field of each is
  true exactly when \<^verbatim>\<open>sendMetrics('handle-conflict')\<close> was called between the
  beginning and the end of this cycle's sync; and when it was, this cycle's sync
  submitted the resolution of a conflict that has a remote record.
\<close>

theorem save_reports_this_cycle:
  assumes "alone S"
    and "save_locally S note w = (Inr u, w1)"
    and "syncKinto n S P (text_saved S w1) = Some (outcome, w2)"
  shows "(\<forall>k. later (n + k) S P note w = Some (report_synced S w2))
       \<and> (\<forall>b. later n S P note (w\<lparr>client_conflict := b\<rparr>) = later n S P note w)
       \<and> \<not> client_conflict (text_saved S w1)
       \<and> synced_flags (new_calls w (report_synced S w2)) \<noteq> []
       \<and> set (synced_flags (new_calls w (report_synced S w2)))
           = {SendMetrics ''handle-conflict'' \<in> set (new_calls (text_saved S w1) w2)}
       \<and> (SendMetrics ''handle-conflict'' \<in> set (new_calls (text_saved S w1) w2)
            \<longrightarrow> list_ex resolves_remote (new_calls (text_saved S w1) w2))"
proof -
  have y: "yield S v = v" for v
    using assms(1) by (simp add: yield_def alone_def)
  have m: "syncKinto (n + k) S P (text_saved S w1) = Some (outcome, w2)" for k
    by (rule syncKinto_more_fuel [OF assms(3)])
  have l: "later (n + k) S P note w = Some (report_synced S w2)" for k
    using assms(2) by (simp add: later_def m)
  have f: "\<not> client_conflict (text_saved S w1)"
    by (simp add: text_saved_def)
  have c1: "calls w1 = calls w @ [CollectionUpsert note]"
    using assms(2) by (auto simp add: save_locally_def await_def y invoke_def split: prod.splits)
  have c2: "calls (text_saved S w1) = calls w1 @ [SendMessage TextSaved]"
    by (simp add: text_saved_def invoke_def split: prod.splits)
  have sb: "save_locally S note (w\<lparr>client_conflict := b\<rparr>) = (Inr u, w1\<lparr>client_conflict := b\<rparr>)" for b
    using assms(2) by (auto simp add: save_locally_def await_def y invoke_def split: prod.splits)
  have tb: "text_saved S (w1\<lparr>client_conflict := b\<rparr>) = text_saved S w1" for b
    by (simp add: text_saved_def invoke_def split: prod.splits)
  have ind: "later n S P note (w\<lparr>client_conflict := b\<rparr>) = later n S P note w" for b
    using assms(2) by (simp add: later_def sb tb)
  note q = quiet_calls [OF quiet_syncKinto [OF assms(3)]]
  from quiet_syncKinto [OF assms(3)] obtain new where
    n: "calls w2 = calls (text_saved S w1) @ new" "synced_flags new = []"
    by (auto simp add: quiet_def)
  have cw: "client_conflict w2 = (SendMetrics ''handle-conflict'' \<in> set (new_calls (text_saved S w1) w2))"
    using q(5) [OF assms(1)] f by simp
  from report_synced_calls [OF assms(1), of w2] obtain k tail where
    t: "0 < k" "calls (report_synced S w2) = calls w2 @ CollectionList # tail"
       "synced_flags tail = replicate k (client_conflict w2)"
    by blast
  have "new_calls w (report_synced S w2)
          = CollectionUpsert note # SendMessage TextSaved # new @ CollectionList # tail"
    by (simp add: new_calls_def t(2) n(1) c2 c1)
  then have sf: "synced_flags (new_calls w (report_synced S w2)) = replicate k (client_conflict w2)"
    using n(2) t(3) by (simp add: synced_flags_def)
  from t(1) have "set (replicate k (client_conflict w2)) = {client_conflict w2}"
    by simp
  with sf t(1) l ind f cw q(4) show ?thesis by simp
qed

theorem save_reports_this_cycle_witness:
  "alone demo_services
   \<and> client_conflict (demo_world [] False True)
   \<and> later (Suc 0) demo_services demo_platform demo_note (demo_world [] False True)
      = Some \<lparr>env = demo_saved_env [],
              calls = [CollectionUpsert demo_note, SendMessage TextSaved,
                       CredentialsGet, FxaRenewCredential demo_credential,
                       CredentialsSet demo_credential, CollectionSync demo_key ''token'',
                       CollectionList,
                       SendMessage (TextSynced (Some [demo_note, demo_note]) False)],
              client_conflict = False\<rparr>
   \<and> later (Suc (Suc 0)) demo_services demo_platform demo_note
        (demo_world [demo_merge_round] False False)
      = Some \<lparr>env = demo_saved_env [],
              calls = [CollectionUpsert demo_note, SendMessage TextSaved,
                       CredentialsGet, FxaRenewCredential demo_credential,
                       CredentialsSet demo_credential, CollectionSync demo_key ''token'',
                       SendMetrics ''handle-conflict'',
                       CollectionResolve demo_both
                         [(''id'', JStr ''n1''),
                          (''content'', JStr ''theirs<p>MERGED</p>mine'')],
                       CredentialsGet, FxaRenewCredential demo_credential,
                       CredentialsSet demo_credential, CollectionSync demo_key ''token'',
                       CollectionList,
                       SendMessage (TextSynced (Some [demo_note, demo_note]) True)],
              client_conflict = True\<rparr>"
proof -
  let ?S = demo_services and ?P = demo_platform
  have al: "alone ?S"
    by (simp add: alone_def demo_services_def)
  have sl: "save_locally ?S demo_note (demo_world os False b)
          = (Inr (), \<lparr>env = demo_saved_env os, calls = [CollectionUpsert demo_note],
                      client_conflict = b\<rparr>)" for os b
    by (simp add: save_locally_def await_def yield_def invoke_def demo_services_def
        demo_world_def demo_saved_env_def)
  have ts: "text_saved ?S \<lparr>env = demo_saved_env os, calls = [CollectionUpsert demo_note],
                      client_conflict = b\<rparr>
          = \<lparr>env = demo_saved_env os,
             calls = [CollectionUpsert demo_note, SendMessage TextSaved],
             client_conflict = False\<rparr>" for os b
    by (simp add: text_saved_def invoke_def demo_services_def)
  have clean: "syncKinto (Suc n) ?S ?P \<lparr>env = demo_saved_env [], calls = cs, client_conflict = b\<rparr>
          = Some (Inr (), \<lparr>env = demo_saved_env [],
                calls = cs @ [CredentialsGet, FxaRenewCredential demo_credential,
                       CredentialsSet demo_credential, CollectionSync demo_key ''token''],
                client_conflict = b\<rparr>)" for n cs b
    by (simp add: attempt_def fetch_and_sync_def await_def yield_def invoke_def demo_services_def
        demo_saved_env_def demo_credential_def)
  have merge: "syncKinto (Suc (Suc 0)) ?S ?P
            \<lparr>env = demo_saved_env [demo_merge_round],
             calls = [CollectionUpsert demo_note, SendMessage TextSaved],
             client_conflict = False\<rparr>
          = Some (Inr (), \<lparr>env = demo_saved_env [],
                calls = [CollectionUpsert demo_note, SendMessage TextSaved,
                       CredentialsGet, FxaRenewCredential demo_credential,
                       CredentialsSet demo_credential, CollectionSync demo_key ''token'',
                       SendMetrics ''handle-conflict'',
                       CollectionResolve demo_both
                         [(''id'', JStr ''n1''),
                          (''content'', JStr ''theirs<p>MERGED</p>mine'')],
                       CredentialsGet, FxaRenewCredential demo_credential,
                       CredentialsSet demo_credential, CollectionSync demo_key ''token''],
                client_conflict = True\<rparr>)"
  proof -
    have a: "fetch_and_sync ?S \<lparr>env = demo_saved_env [demo_merge_round],
             calls = [CollectionUpsert demo_note, SendMessage TextSaved],
             client_conflict = False\<rparr>
        = (Inr (Some \<lparr>conflicts = [demo_both], published = []\<rparr>),
           \<lparr>credential = Some demo_credential, collection = True\<rparr>,
           \<lparr>env = demo_saved_env [],
             calls = [CollectionUpsert demo_note, SendMessage TextSaved,
                      CredentialsGet, FxaRenewCredential demo_credential,
                      CredentialsSet demo_credential, CollectionSync demo_key ''token''],
             client_conflict = False\<rparr>)"
      by (simp add: fetch_and_sync_def await_def yield_def invoke_def demo_services_def
          demo_saved_env_def demo_credential_def demo_merge_round_def)
    have r: "resolve_all ?S ?P [demo_both] None []
           \<lparr>env = demo_saved_env [],
             calls = [CollectionUpsert demo_note, SendMessage TextSaved,
                      CredentialsGet, FxaRenewCredential demo_credential,
                      CredentialsSet demo_credential, CollectionSync demo_key ''token''],
             client_conflict = False\<rparr>
        = (Inr (), \<lparr>env = demo_saved_env [],
             calls = [CollectionUpsert demo_note, SendMessage TextSaved,
                      CredentialsGet, FxaRenewCredential demo_credential,
                      CredentialsSet demo_credential, CollectionSync demo_key ''token'',
                      SendMetrics ''handle-conflict'',
                      CollectionResolve demo_both
                         [(''id'', JStr ''n1''),
                          (''content'', JStr ''theirs<p>MERGED</p>mine'')]],
             client_conflict = True\<rparr>)"
      by (simp add: resolve_conflict_def submit_eq note_call_def Let_def get_prop_def
          demo_both_def demo_services_def yield_def)
    have att: "attempt (syncKinto (Suc 0) ?S ?P) ?S ?P
            \<lparr>env = demo_saved_env [demo_merge_round],
             calls = [CollectionUpsert demo_note, SendMessage TextSaved],
             client_conflict = False\<rparr>
        = Some (\<lparr>credential = Some demo_credential, collection = True\<rparr>, Inr (),
            \<lparr>env = demo_saved_env [],
                calls = [CollectionUpsert demo_note, SendMessage TextSaved,
                       CredentialsGet, FxaRenewCredential demo_credential,
                       CredentialsSet demo_credential, CollectionSync demo_key ''token'',
                       SendMetrics ''handle-conflict'',
                       CollectionResolve demo_both
                         [(''id'', JStr ''n1''),
                          (''content'', JStr ''theirs<p>MERGED</p>mine'')],
                       CredentialsGet, FxaRenewCredential demo_credential,
                       CredentialsSet demo_credential, CollectionSync demo_key ''token''],
                client_conflict = True\<rparr>)"
      by (simp add: attempt_def a r clean del: syncKinto.simps resolve_all.simps)
    show ?thesis
      by (simp add: att)
  qed
  have rs: "report_synced ?S \<lparr>env = demo_saved_env [], calls = cs, client_conflict = b\<rparr>
          = \<lparr>env = demo_saved_env [],
             calls = cs @ [CollectionList,
                           SendMessage (TextSynced (Some [demo_note, demo_note]) b)],
             client_conflict = b\<rparr>" for cs b
    by (simp add: report_synced_def retrieveNote_def await_def yield_def invoke_def
        demo_services_def demo_saved_env_def)
  have f: "client_conflict (demo_world [] False True)"
    by (simp add: demo_world_def)
  note A = save_reports_this_cycle [OF al sl, where P = ?P and n = "Suc 0", unfolded ts, OF clean]
  note B = save_reports_this_cycle [OF al sl, where P = ?P and n = "Suc (Suc 0)", unfolded ts, OF merge]
  have a0: "later (Suc 0) ?S ?P demo_note (demo_world [] False True)
          = Some (report_synced ?S \<lparr>env = demo_saved_env [],
                calls = [CollectionUpsert demo_note, SendMessage TextSaved] @
                  [CredentialsGet, FxaRenewCredential demo_credential,
                   CredentialsSet demo_credential, CollectionSync demo_key ''token''],
                client_conflict = False\<rparr>)"
    using A [THEN conjunct1, THEN spec, of 0] by (simp del: syncKinto.simps)
  have b0: "later (Suc (Suc 0)) ?S ?P demo_note (demo_world [demo_merge_round] False False)
          = Some (report_synced ?S \<lparr>env = demo_saved_env [],
                calls = [CollectionUpsert demo_note, SendMessage TextSaved,
                       CredentialsGet, FxaRenewCredential demo_credential,
                       CredentialsSet demo_credential, CollectionSync demo_key ''token'',
                       SendMetrics ''handle-conflict'',
                       CollectionResolve demo_both
                         [(''id'', JStr ''n1''),
                          (''content'', JStr ''theirs<p>MERGED</p>mine'')],
                       CredentialsGet, FxaRenewCredential demo_credential,
                       CredentialsSet demo_credential, CollectionSync demo_key ''token''],
                client_conflict = True\<rparr>)"
    using B [THEN conjunct1, THEN spec, of 0] by (simp del: syncKinto.simps)
  show ?thesis
    by (simp only: a0 b0 rs) (simp add: al f)
qed

text \<open>
  The claim as written fails in two runs. When the local upsert is rejected, the flag
  an earlier cycle left set is reported, and no sync has run in this cycle. When
  another cycle sets the flag while this one waits, \<^verbatim>\<open>text-synced\<close> reports a
  conflict although this cycle's sync met none.
\<close>

theorem save_reports_stale_counterexample:
  "later (Suc 0) demo_services demo_platform demo_note (demo_world [] True True)
     = Some \<lparr>env = \<lparr>stored_credential = Some demo_credential, sync_outcomes = [],
                    upsert_fails = True, local_notes = [demo_note]\<rparr>,
             calls = [CollectionUpsert demo_note, CollectionList,
                      SendMessage (TextSynced (Some [demo_note]) True)],
             client_conflict = True\<rparr>
   \<and> later (Suc 0) other_cycle_merges demo_platform demo_note (demo_world [] False False)
     = Some \<lparr>env = demo_saved_env [],
             calls = [CollectionUpsert demo_note, SendMessage TextSaved,
                      CredentialsGet, FxaRenewCredential demo_credential,
                      CredentialsSet demo_credential, CollectionSync demo_key ''token'',
                      CollectionList,
                      SendMessage (TextSynced (Some [demo_note, demo_note]) True)],
             client_conflict = True\<rparr>"
  by (simp add: later_def save_locally_def text_saved_def await_def yield_def invoke_def
      other_cycle_merges_def demo_services_def demo_world_def demo_saved_env_def
      demo_credential_def report_synced_def retrieveNote_def attempt_def fetch_and_sync_def)

end
